theory Spec2Isabelle
  imports Main "HOL-Library.Word"
begin

unbundle bit_operations_syntax

text \<open>
  A key-value store in one flat binary file, as the class \<open>USaveLoadManager\<close> of
  SaveLoadManager.h and SaveLoadManager.cpp implements it: records of a type tag, a key
  and a payload of bytes, written back to back; \<open>SaveData\<close> inserts or replaces the record
  of a key, \<open>LoadData\<close> looks a key up, \<open>DeleteData\<close> removes it, each reading and
  rewriting the whole file; and a family of codecs between typed values and payloads.
  The functions of the class are translated below, on a model of the engine classes they
  are written with, and the properties the specification states of them are proved or
  refuted.
\<close>

section \<open>Machine types\<close>

text \<open>
  The C++ integer types of the source are words of their width. A \<open>float\<close> is moved
  through an archive as its four bytes, so it is modelled by its IEEE bit pattern; the
  pattern \<open>0\<close> is the value \<open>0.0f\<close>. \<open>TCHAR\<close> is the engine's 16-bit code unit and an
  \<open>FString\<close> is the list of its \<open>Len()\<close> code units (the terminating NUL is not part of
  the list; the empty text is the empty list).
\<close>

type_synonym uint8 = "8 word"
type_synonym uint16 = "16 word"
type_synonym uint32 = "32 word"
type_synonym uint64 = "64 word"
type_synonym int32 = "32 word"
type_synonym float = "32 word"
type_synonym TCHAR = "16 word"
type_synonym FString = "TCHAR list"

text \<open>
  \<open>enum class EDataType : uint8\<close> (SaveLoadManager.h). An object of the enumeration holds
  any value of its underlying type, and the archive moves it as that one byte, so the
  type is \<open>uint8\<close> and the enumerators are its first nine values.
\<close>

type_synonym EDataType = uint8

definition FloatType :: EDataType where "FloatType = 0"
definition BoolType :: EDataType where "BoolType = 1"
definition IntType :: EDataType where "IntType = 2"
definition FStringType :: EDataType where "FStringType = 3"
definition EnumType :: EDataType where "EnumType = 4"
definition ActorType :: EDataType where "ActorType = 5"
definition VectorType :: EDataType where "VectorType = 6"
definition RotatorType :: EDataType where "RotatorType = 7"
definition TransformType :: EDataType where "TransformType = 8"

section \<open>The engine's memory archives\<close>

text \<open>
  Modelled from the spec: the engine classes \<open>FMemoryWriter\<close>, \<open>FMemoryReader\<close> and the
  stream operators of \<open>FArchive\<close> are used by every function of the source and are not
  part of the repository. Sections 4.1, 4.3 and 6 of the specification fix what matters
  of them:
  fixed-width fields in one byte order, texts and byte sequences prefixed by their
  length, records back to back with no header. Where the specification is silent the
  behaviour of the engine's own headers (Serialization/MemoryReader.h, MemoryWriter.h,
  Archive.h, Containers/Array.h, Containers/String.cpp) is followed, and each such
  choice is named at its definition.
\<close>

subsection \<open>Host byte order\<close>

text \<open>
  \<open>FMemory::Memcpy\<close> of an integer and \<open>FArchive::Serialize\<close> of a scalar both copy the
  object representation. Every platform of the engine is little-endian:
  the byte at the lowest address is the least significant one.
\<close>

primrec to_bytes :: "nat \<Rightarrow> 'a::len word \<Rightarrow> uint8 list" where
  "to_bytes 0 w = []"
| "to_bytes (Suc n) w = ucast w # to_bytes n (drop_bit 8 w)"

primrec from_bytes :: "uint8 list \<Rightarrow> 'a::len word" where
  "from_bytes [] = 0"
| "from_bytes (b # bs) = ucast b OR push_bit 8 (from_bytes bs)"

definition sizeof :: "'a::len word \<Rightarrow> nat" where
  "sizeof w = LENGTH('a) div 8"

subsection \<open>FMemoryReader\<close>

text \<open>
  A reader is the byte array it reads, its offset and the error flag of the archive.
  \<open>Serialize\<close> copies \<open>Num\<close> bytes only when that many are left; otherwise it sets the
  error flag, leaves the destination as it is (result \<open>None\<close>) and does not move.
  Once the flag is set every later \<open>Serialize\<close> does nothing. \<open>AtEnd\<close> compares the
  offset with the size and does not look at the flag.
\<close>

record FMemoryReader =
  Bytes :: "uint8 list"
  Offset :: nat
  ArIsError :: bool

definition MemoryReader :: "uint8 list \<Rightarrow> FMemoryReader" where
  "MemoryReader ByteArray = \<lparr>Bytes = ByteArray, Offset = 0, ArIsError = False\<rparr>"

definition TotalSize :: "FMemoryReader \<Rightarrow> nat" where
  "TotalSize Ar = length (Bytes Ar)"

definition AtEnd :: "FMemoryReader \<Rightarrow> bool" where
  "AtEnd Ar = (TotalSize Ar \<le> Offset Ar)"

definition SetError :: "FMemoryReader \<Rightarrow> FMemoryReader" where
  "SetError Ar = Ar\<lparr>ArIsError := True\<rparr>"

definition Serialize :: "nat \<Rightarrow> FMemoryReader \<Rightarrow> uint8 list option \<times> FMemoryReader" where
  "Serialize Num Ar =
     (if Num \<noteq> 0 \<and> \<not> ArIsError Ar then
        (if Offset Ar + Num \<le> TotalSize Ar
         then (Some (take Num (drop (Offset Ar) (Bytes Ar))), Ar\<lparr>Offset := Offset Ar + Num\<rparr>)
         else (None, SetError Ar))
      else (None, Ar))"

subsection \<open>Stream operators for scalars\<close>

text \<open>
  \<open>Ar << Value\<close> on a loading archive, for an integer, a float or an enumeration: the
  first argument is the value the destination holds before the call, which it keeps
  when nothing is read. On a saving \<open>FMemoryWriter\<close>, which every function of the source
  creates on an empty array, the operator appends to the array.
\<close>

definition Load :: "'a::len word \<Rightarrow> FMemoryReader \<Rightarrow> 'a word \<times> FMemoryReader" where
  "Load Value Ar =
     (case Serialize (sizeof Value) Ar of
        (Some bs, Ar') \<Rightarrow> (from_bytes bs, Ar')
      | (None, Ar') \<Rightarrow> (Value, Ar'))"

definition Save :: "'a::len word \<Rightarrow> uint8 list \<Rightarrow> uint8 list" where
  "Save Value ByteArray = ByteArray @ to_bytes (sizeof Value) Value"

text \<open>
  \<open>bool\<close>: the engine's \<open>FArchive\<close> moves a \<open>bool\<close> as a legacy 32-bit \<open>UBOOL\<close> holding 0 or
  1; a loaded value above 1 sets the error flag, and the result is whether the value is
  not 0. (The table of section 4.3 of the specification gives the width as one byte; no
  theorem below depends on the width.)
\<close>

definition Load_bool :: "bool \<Rightarrow> FMemoryReader \<Rightarrow> bool \<times> FMemoryReader" where
  "Load_bool D Ar =
     (case Load (if D then 1 else 0 :: uint32) Ar of
        (OldUBoolValue, Ar') \<Rightarrow>
          (OldUBoolValue \<noteq> 0, if 1 < OldUBoolValue then SetError Ar' else Ar'))"


section \<open>Typed value codec (SaveLoadManager.h)\<close>


definition ByteArrayToFloat :: "uint8 list \<Rightarrow> float" where
  "ByteArrayToFloat ByteArray = fst (Load (0 :: float) (MemoryReader ByteArray))"


definition ByteArrayToBool :: "uint8 list \<Rightarrow> bool" where
  "ByteArrayToBool ByteArray = fst (Load_bool False (MemoryReader ByteArray))"


definition ByteArrayToInt :: "uint8 list \<Rightarrow> int32" where
  "ByteArrayToInt ByteArray = fst (Load (0 :: int32) (MemoryReader ByteArray))"


definition EnumToByteArray_uint16 :: "uint16 \<Rightarrow> uint8 list" where
  "EnumToByteArray_uint16 EnumValue = to_bytes (sizeof EnumValue) EnumValue"

definition EnumToByteArray_uint32 :: "uint32 \<Rightarrow> uint8 list" where
  "EnumToByteArray_uint32 EnumValue = to_bytes (sizeof EnumValue) EnumValue"

definition EnumToByteArray_uint64 :: "uint64 \<Rightarrow> uint8 list" where
  "EnumToByteArray_uint64 EnumValue = to_bytes (sizeof EnumValue) EnumValue"

definition ByteArrayToEnum :: "uint8 list \<Rightarrow> uint8" where
  "ByteArrayToEnum ByteArray = fst (Load (0 :: uint8) (MemoryReader ByteArray))"

section \<open>Texts and byte arrays in an archive\<close>

text \<open>
  \<open>Ar << FString\<close>. Saving: a text whose code units are all at most \<open>0x7F\<close> is written
  as the count of its stored characters (the terminating NUL included, 0 for the empty
  text) in an \<open>int32\<close>, followed by one byte per character; any other text is written as
  the negated count followed by two bytes per code unit. Loading reads the count, takes a
  negative one as the two-byte form (the count \<open>MIN_int32\<close>, which has no negation, sets the
  error flag), reads the characters in one \<open>Serialize\<close> and overwrites the last of them
  with NUL. A two-byte text is cut at a code unit \<open>0xFFFF\<close>.
  Two choices concern bytes that the engine never writes. When the characters are not
  there, the engine's text has the announced length and indeterminate characters; the
  model takes the empty text for it. A byte above \<open>0x7F\<close> in the one-byte form is taken
  as the code unit of the same value.
\<close>

definition TEXT :: "string \<Rightarrow> FString" where
  "TEXT s = map of_char s"

definition IsPureAnsi :: "FString \<Rightarrow> bool" where
  "IsPureAnsi A = list_all (\<lambda>c. c \<le> 0x7F) A"

definition MIN_int32 :: int32 where
  "MIN_int32 = 0x80000000"

fun from_UTF16 :: "uint8 list \<Rightarrow> TCHAR list" where
  "from_UTF16 (lo # hi # bs) = from_bytes [lo, hi] # from_UTF16 bs"
| "from_UTF16 bs = []"

definition to_UTF16 :: "TCHAR list \<Rightarrow> uint8 list" where
  "to_UTF16 cs = concat (map (to_bytes 2) cs)"

definition TrimAtFFFF :: "FString \<Rightarrow> FString" where
  "TrimAtFFFF A =
     (if 0xFFFF \<in> set A then takeWhile (\<lambda>c. c \<noteq> 0 \<and> c \<noteq> 0xFFFF) A else A)"

definition Save_FString :: "FString \<Rightarrow> uint8 list \<Rightarrow> uint8 list" where
  "Save_FString A ByteArray =
     (if \<not> IsPureAnsi A then
        Save (- (of_nat (length A + 1)) :: int32) ByteArray @ to_UTF16 (A @ [0])
      else if A = [] then Save (0 :: int32) ByteArray
      else Save (of_nat (length A + 1) :: int32) ByteArray @ map ucast (A @ [0]))"

definition Load_FString :: "FString \<Rightarrow> FMemoryReader \<Rightarrow> FString \<times> FMemoryReader" where
  "Load_FString A Ar =
     (let (SaveNum, Ar1) = Load (0 :: int32) Ar;
          bLoadUnicodeChar = (SaveNum <s 0)
      in if bLoadUnicodeChar \<and> SaveNum = MIN_int32 then (A, SetError Ar1)
         else
           let Num = nat (sint (if bLoadUnicodeChar then - SaveNum else SaveNum))
           in if Num = 0 then ([], Ar1)
              else if bLoadUnicodeChar then
                (case Serialize (Num * 2) Ar1 of
                   (Some bs, Ar2) \<Rightarrow> (TrimAtFFFF (butlast (from_UTF16 bs)), Ar2)
                 | (None, Ar2) \<Rightarrow> ([], Ar2))
              else
                (case Serialize Num Ar1 of
                   (Some bs, Ar2) \<Rightarrow> (butlast (map ucast bs), Ar2)
                 | (None, Ar2) \<Rightarrow> ([], Ar2)))"

text \<open>
  \<open>Ar << TArray<uint8>\<close>: the element count in an \<open>int32\<close>, then the bytes in one
  \<open>Serialize\<close>. A loaded count of 0 (also the 0 that stays when nothing could be read)
  empties the array; a negative count sets the error flag. As for texts, an array whose
  bytes are not there is taken as empty.
\<close>

definition Save_TArray :: "uint8 list \<Rightarrow> uint8 list \<Rightarrow> uint8 list" where
  "Save_TArray A ByteArray = Save (of_nat (length A) :: int32) ByteArray @ A"

definition Load_TArray :: "uint8 list \<Rightarrow> FMemoryReader \<Rightarrow> uint8 list \<times> FMemoryReader" where
  "Load_TArray A Ar =
     (let (SerializeNum, Ar1) = Load (0 :: int32) Ar
      in if SerializeNum = 0 then ([], Ar1)
         else if \<not> ArIsError Ar1 \<and> 0 <s SerializeNum then
           (case Serialize (nat (sint SerializeNum)) Ar1 of
              (Some bs, Ar2) \<Rightarrow> (bs, Ar2)
            | (None, Ar2) \<Rightarrow> ([], Ar2))
         else (A, SetError Ar1))"



section \<open>Records (SaveLoadManager.h)\<close>

text \<open>
  \<open>struct FSerializedData\<close> and its \<open>operator<<\<close>: the type tag, the key, the payload, in
  this order. A default-constructed record has the empty key and the empty payload; its
  \<open>DataType\<close> member has no initialiser, and the model starts it at 0.
\<close>

record FSerializedData =
  DataType :: EDataType
  Key :: FString
  Data :: "uint8 list"

definition FSerializedData_default :: FSerializedData where
  "FSerializedData_default = \<lparr>DataType = 0, Key = [], Data = []\<rparr>"

definition Load_FSerializedData ::
    "FSerializedData \<Rightarrow> FMemoryReader \<Rightarrow> FSerializedData \<times> FMemoryReader" where
  "Load_FSerializedData SerializedData Ar =
     (let (t, Ar1) = Load (DataType SerializedData) Ar;
          (k, Ar2) = Load_FString (Key SerializedData) Ar1;
          (d, Ar3) = Load_TArray (Data SerializedData) Ar2
      in (\<lparr>DataType = t, Key = k, Data = d\<rparr>, Ar3))"

definition Save_FSerializedData :: "FSerializedData \<Rightarrow> uint8 list \<Rightarrow> uint8 list" where
  "Save_FSerializedData SerializedData ByteArray =
     Save_TArray (Data SerializedData)
       (Save_FString (Key SerializedData)
         (Save (DataType SerializedData) ByteArray))"

section \<open>Transforms\<close>













section \<open>The platform: files and the log\<close>

text \<open>
  Modelled from the spec: the collaborator interface of section 6 (\<open>FPaths::FileExists\<close>,
  \<open>FFileHelper::LoadFileToArray\<close>, \<open>FFileHelper::SaveArrayToFile\<close>) and \<open>UE_LOG\<close> are engine
  code. The platform holds the content of every file, says for which paths a read or a
  write fails, what a failed write leaves behind (section 4.2: no atomicity), which
  writes were asked for, in order, and the lines logged.
\<close>

datatype ELogVerbosity = Error | Warning | Log

record Platform =
  Files :: "FString \<rightharpoonup> uint8 list"
  ReadFails :: "FString \<Rightarrow> bool"
  WriteFails :: "FString \<Rightarrow> bool"
  TornWrite :: "FString \<Rightarrow> uint8 list \<Rightarrow> uint8 list option"
  Written :: "(FString \<times> uint8 list) list"
  LogTemp :: "(ELogVerbosity \<times> FString) list"

definition FileExists :: "FString \<Rightarrow> Platform \<Rightarrow> bool" where
  "FileExists Path P = (Files P Path \<noteq> None)"

definition LoadFileToArray :: "FString \<Rightarrow> Platform \<Rightarrow> uint8 list option" where
  "LoadFileToArray Path P = (if ReadFails P Path then None else Files P Path)"

definition SaveArrayToFile :: "uint8 list \<Rightarrow> FString \<Rightarrow> Platform \<Rightarrow> bool \<times> Platform" where
  "SaveArrayToFile ByteArray Path P =
     (if WriteFails P Path
      then (False, P\<lparr>Files := (Files P)(Path := TornWrite P Path ByteArray),
                      Written := Written P @ [(Path, ByteArray)]\<rparr>)
      else (True, P\<lparr>Files := (Files P)(Path \<mapsto> ByteArray),
                     Written := Written P @ [(Path, ByteArray)]\<rparr>))"

definition UE_LOG :: "ELogVerbosity \<Rightarrow> FString \<Rightarrow> Platform \<Rightarrow> Platform" where
  "UE_LOG Verbosity Line P = P\<lparr>LogTemp := LogTemp P @ [(Verbosity, Line)]\<rparr>"

section \<open>Comparing keys\<close>

text \<open>
  Modelled from the spec: the source compares keys with \<open>operator==\<close> of \<open>FString\<close>, which is
  engine code. The specification speaks of a record whose key equals the given key; the
  engine's operator takes two texts as equal when they have the same length and the same
  code units up to the case of the letters A to Z. The general theorems below use only
  that the comparison is reflexive, symmetric and transitive; the keys of the concrete
  scenario differ by more than case.
\<close>

definition ToLowerAscii :: "TCHAR \<Rightarrow> TCHAR" where
  "ToLowerAscii c = (if 0x41 \<le> c \<and> c \<le> 0x5A then c + 0x20 else c)"

definition FString_eq :: "FString \<Rightarrow> FString \<Rightarrow> bool" where
  "FString_eq A B = (map ToLowerAscii A = map ToLowerAscii B)"

section \<open>The store (SaveLoadManager.cpp)\<close>

text \<open>
  \<open>TArray::RemoveAll\<close> removes every element the predicate holds for and keeps the others
  in their order.
\<close>

definition RemoveAll :: "('a \<Rightarrow> bool) \<Rightarrow> 'a list \<Rightarrow> 'a list" where
  "RemoveAll Pred A = filter (\<lambda>x. \<not> Pred x) A"

text \<open>
  The loop \<open>while (!MemoryReader.AtEnd())\<close> of \<open>SaveData\<close> and of \<open>DeleteData\<close>: each turn
  loads one record into a fresh \<open>FSerializedData\<close> and adds it to \<open>ExistingData\<close>. Nothing
  in the loop looks at the error flag, so the loop ends only when the offset reaches
  the size: the value \<open>None\<close> is a loop that never ends.
\<close>

partial_function (option) ReadExistingData ::
    "FMemoryReader \<Rightarrow> FSerializedData list \<Rightarrow> FSerializedData list option" where
  "ReadExistingData Ar ExistingData =
     (if AtEnd Ar then Some ExistingData
      else ReadExistingData (snd (Load_FSerializedData FSerializedData_default Ar))
             (ExistingData @ [fst (Load_FSerializedData FSerializedData_default Ar)]))"

declare ReadExistingData.simps [code]

definition WriteAll :: "FSerializedData list \<Rightarrow> uint8 list" where
  "WriteAll ExistingData = fold Save_FSerializedData ExistingData []"

definition SaveData ::
    "FString \<Rightarrow> uint8 list \<Rightarrow> EDataType \<Rightarrow> FString \<Rightarrow> Platform \<Rightarrow> (bool \<times> Platform) option" where
  "SaveData InKey InData InDataType SaveFilePath P =
     (if FileExists SaveFilePath P then
        (case LoadFileToArray SaveFilePath P of
           Some ByteArray \<Rightarrow>
             (case ReadExistingData (MemoryReader ByteArray) [] of
                None \<Rightarrow> None
              | Some ExistingData \<Rightarrow>
                  let Kept = RemoveAll (\<lambda>Entry. FString_eq (Key Entry) InKey) ExistingData;
                      NewData = \<lparr>DataType = InDataType, Key = InKey, Data = InData\<rparr>
                  in Some (SaveArrayToFile (WriteAll (Kept @ [NewData])) SaveFilePath P))
         | None \<Rightarrow> Some (False, P))
      else
        let NewData = \<lparr>DataType = InDataType, Key = InKey, Data = InData\<rparr>
        in Some (SaveArrayToFile (Save_FSerializedData NewData []) SaveFilePath P))"

text \<open>
  The loop of \<open>LoadData\<close> returns at the first record whose key is the one asked for;
  \<open>Some None\<close> is the end of the loop without such a record.
\<close>

partial_function (option) FindData ::
    "FString \<Rightarrow> FMemoryReader \<Rightarrow> FSerializedData option option" where
  "FindData InKey Ar =
     (if AtEnd Ar then Some None
      else if FString_eq (Key (fst (Load_FSerializedData FSerializedData_default Ar))) InKey
      then Some (Some (fst (Load_FSerializedData FSerializedData_default Ar)))
      else FindData InKey (snd (Load_FSerializedData FSerializedData_default Ar)))"

declare FindData.simps [code]

text \<open>
  \<open>LoadData\<close> returns its \<open>bool\<close> and the two output parameters, which keep the values
  they came with unless the key is found.
\<close>

definition LoadData ::
    "FString \<Rightarrow> uint8 list \<Rightarrow> EDataType \<Rightarrow> FString \<Rightarrow> Platform
       \<Rightarrow> ((bool \<times> uint8 list \<times> EDataType) \<times> Platform) option" where
  "LoadData InKey OutData OutDataType SaveFilePath P =
     (if FileExists SaveFilePath P then
        (case LoadFileToArray SaveFilePath P of
           Some ByteArray \<Rightarrow>
             (case FindData InKey (MemoryReader ByteArray) of
                None \<Rightarrow> None
              | Some (Some SerializedData) \<Rightarrow>
                  Some ((True, Data SerializedData, DataType SerializedData), P)
              | Some None \<Rightarrow> Some ((False, OutData, OutDataType), P))
         | None \<Rightarrow>
             Some ((False, OutData, OutDataType),
                   UE_LOG Error (TEXT ''Failed to load file: '' @ SaveFilePath) P))
      else
        Some ((False, OutData, OutDataType),
              UE_LOG Warning (TEXT ''File not found: '' @ SaveFilePath) P))"

definition DeleteData :: "FString \<Rightarrow> FString \<Rightarrow> Platform \<Rightarrow> (bool \<times> Platform) option" where
  "DeleteData InKey SaveFilePath P =
     (if FileExists SaveFilePath P then
        (case LoadFileToArray SaveFilePath P of
           Some ByteArray \<Rightarrow>
             (case ReadExistingData (MemoryReader ByteArray) [] of
                None \<Rightarrow> None
              | Some ExistingData \<Rightarrow>
                  let Kept = RemoveAll (\<lambda>Entry. FString_eq (Key Entry) InKey) ExistingData
                  in Some (SaveArrayToFile (WriteAll Kept) SaveFilePath P))
         | None \<Rightarrow> Some (False, P))
      else Some (False, P))"

section \<open>Notions used in the statements\<close>

text \<open>
  A reader that stands behind the bytes \<open>pre\<close> and before the bytes \<open>rest\<close> of its array,
  with no error so far.
\<close>

definition Reader_at :: "uint8 list \<Rightarrow> uint8 list \<Rightarrow> FMemoryReader" where
  "Reader_at pre rest = \<lparr>Bytes = pre @ rest, Offset = length pre, ArIsError = False\<rparr>"

text \<open>
  The texts and records an archive can hold: the counts are \<open>int32\<close>, as the element
  count of a \<open>TArray\<close> is, and a text is stored with its terminating NUL. The code unit
  \<open>0xFFFF\<close> is not a character, and a loaded text is cut at it.
\<close>

definition FString_ok :: "FString \<Rightarrow> bool" where
  "FString_ok A = (length A + 1 < 2 ^ 31 \<and> 0xFFFF \<notin> set A)"

definition Record_ok :: "FSerializedData \<Rightarrow> bool" where
  "Record_ok r = (FString_ok (Key r) \<and> length (Data r) < 2 ^ 31)"

text \<open>
  Decoding the full store file at a path: the records the loop of \<open>SaveData\<close> and
  \<open>DeleteData\<close> reads from its bytes.
\<close>

definition StoredRecords :: "FString \<Rightarrow> Platform \<Rightarrow> FSerializedData list option" where
  "StoredRecords Path P =
     (case Files P Path of
        None \<Rightarrow> None
      | Some ByteArray \<Rightarrow> ReadExistingData (MemoryReader ByteArray) [])"

text \<open>
  What a call of \<open>SaveData\<close> or \<open>DeleteData\<close> returned and what it left in the file at a
  path; \<open>None\<close> when the call did not return.
\<close>

definition Outcome :: "FString \<Rightarrow> (bool \<times> Platform) option \<Rightarrow> (bool \<times> uint8 list option) option" where
  "Outcome Path R = map_option (\<lambda>r. (fst r, Files (snd r) Path)) R"

section \<open>Concrete inputs\<close>

text \<open>
  The scenario of section 8 of the specification: the key \<open>Health\<close> in the file
  \<open>saves/game.bin\<close>, on a platform where no read and no write fails. \<open>Platform_after bs w\<close>
  is that platform with the one file holding \<open>bs\<close> after the writes \<open>w\<close>.
\<close>

definition Health :: FString where
  "Health = TEXT ''Health''"

definition Mana :: FString where
  "Mana = TEXT ''Mana''"

definition game_bin :: FString where
  "game_bin = TEXT ''saves/game.bin''"

definition Health_42 :: FSerializedData where
  "Health_42 = \<lparr>DataType = IntType, Key = Health, Data = [42, 0, 0, 0]\<rparr>"

definition Health_7 :: FSerializedData where
  "Health_7 = \<lparr>DataType = IntType, Key = Health, Data = [7, 0, 0, 0]\<rparr>"

definition Mana_5 :: FSerializedData where
  "Mana_5 = \<lparr>DataType = IntType, Key = Mana, Data = [5, 0, 0, 0]\<rparr>"

definition Platform_empty :: Platform where
  "Platform_empty =
     \<lparr>Files = Map.empty, ReadFails = (\<lambda>Path. False), WriteFails = (\<lambda>Path. False),
      TornWrite = (\<lambda>Path ByteArray. None), Written = [], LogTemp = []\<rparr>"

definition Platform_after :: "uint8 list \<Rightarrow> (FString \<times> uint8 list) list \<Rightarrow> Platform" where
  "Platform_after bs w = Platform_empty\<lparr>Files := [game_bin \<mapsto> bs], Written := w\<rparr>"

definition Platform_unreadable :: "uint8 list \<Rightarrow> Platform" where
  "Platform_unreadable bs = (Platform_after bs [])\<lparr>ReadFails := (\<lambda>Path. True)\<rparr>"

text \<open>
  A key with the code unit \<open>0xFFFF\<close>, the records saved under it and the records that
  are read back.
\<close>

definition Key_FFFF :: FString where
  "Key_FFFF = [0x41, 0xFFFF]"

definition Saved_42 :: FSerializedData where
  "Saved_42 = \<lparr>DataType = IntType, Key = Key_FFFF, Data = [42, 0, 0, 0]\<rparr>"

definition Saved_7 :: FSerializedData where
  "Saved_7 = \<lparr>DataType = IntType, Key = Key_FFFF, Data = [7, 0, 0, 0]\<rparr>"

definition Read_42 :: FSerializedData where
  "Read_42 = \<lparr>DataType = IntType, Key = [0x41], Data = [42, 0, 0, 0]\<rparr>"

definition Read_7 :: FSerializedData where
  "Read_7 = \<lparr>DataType = IntType, Key = [0x41], Data = [7, 0, 0, 0]\<rparr>"

section \<open>Key comparison\<close>

lemma FString_eq_refl [simp]: "FString_eq A A"
  by (simp add: FString_eq_def)

lemma FString_eq_common: "FString_eq C A \<Longrightarrow> FString_eq C B \<Longrightarrow> FString_eq A B"
  by (simp add: FString_eq_def)

section \<open>Bytes and readers\<close>

lemma length_to_bytes: "length (to_bytes n w) = n"
  by (induction n arbitrary: w) simp_all

lemma from_to_bytes: "from_bytes (to_bytes n w) = take_bit (8 * n) (w :: 'a::len word)"
proof (induction n arbitrary: w)
  case 0
  show ?case by simp
next
  case (Suc n)
  have "ucast (ucast w :: uint8) OR push_bit 8 (take_bit (8 * n) (drop_bit 8 w)) = take_bit (8 * Suc n) w"
    by (rule bit_word_eqI) (auto simp: bit_simps)
  then show ?case by (simp add: Suc)
qed

lemma from_to_bytes_sizeof:
  "8 dvd LENGTH('a) \<Longrightarrow> from_bytes (to_bytes (sizeof w) w) = (w :: 'a::len word)"
  by (simp add: from_to_bytes sizeof_def take_bit_word_eq_self)

lemma MemoryReader_at: "MemoryReader bs = Reader_at [] bs"
  by (simp add: MemoryReader_def Reader_at_def)

lemma AtEnd_at: "AtEnd (Reader_at pre rest) \<longleftrightarrow> rest = []"
  by (simp add: AtEnd_def TotalSize_def Reader_at_def)

lemma Serialize_at:
  "xs \<noteq> [] \<Longrightarrow> Serialize (length xs) (Reader_at pre (xs @ rest)) = (Some xs, Reader_at (pre @ xs) rest)"
  by (simp add: Serialize_def Reader_at_def TotalSize_def)

lemma Serialize_short:
  "n \<noteq> 0 \<Longrightarrow> length rest < n \<Longrightarrow>
   Serialize n (Reader_at pre rest) = (None, SetError (Reader_at pre rest))"
  by (simp add: Serialize_def Reader_at_def TotalSize_def)

lemma Serialize_error: "ArIsError Ar \<Longrightarrow> Serialize n Ar = (None, Ar)"
  by (simp add: Serialize_def)

lemma Serialize_Some_length: "Serialize n Ar = (Some bs, Ar') \<Longrightarrow> length bs = n"
  by (auto simp: Serialize_def TotalSize_def split: if_splits)

lemma Load_at:
  assumes "8 dvd LENGTH('a)"
  shows "Load d (Reader_at pre (to_bytes (sizeof v) v @ rest))
       = (v :: 'a::len word, Reader_at (pre @ to_bytes (sizeof v) v) rest)"
proof -
  have "8 \<le> LENGTH('a)"
    using assms by (simp add: dvd_imp_le)
  then have pos: "0 < LENGTH('a) div 8"
    by (simp add: div_greater_zero_iff)
  have sz: "sizeof d = sizeof v" by (simp add: sizeof_def)
  have ne: "to_bytes (sizeof v) v \<noteq> []"
    using pos length_to_bytes [of "sizeof v" v] by (auto simp: sizeof_def)
  have "Serialize (sizeof d) (Reader_at pre (to_bytes (sizeof v) v @ rest))
      = (Some (to_bytes (sizeof v) v), Reader_at (pre @ to_bytes (sizeof v) v) rest)"
    using Serialize_at [OF ne, of pre rest] by (simp add: sz length_to_bytes)
  then show ?thesis
    by (simp add: Load_def from_to_bytes_sizeof [OF assms])
qed

lemma Load_error: "ArIsError Ar \<Longrightarrow> Load d Ar = (d, Ar)"
  by (simp add: Load_def Serialize_error)

lemma Save_append: "Save v bs = bs @ Save v []"
  by (simp add: Save_def)

lemma Load_Save_at:
  "8 dvd LENGTH('a) \<Longrightarrow>
   Load d (Reader_at pre (Save (v :: 'a::len word) [] @ rest)) = (v, Reader_at (pre @ Save v []) rest)"
  by (simp add: Save_def Load_at)

section \<open>Counts and texts\<close>

lemma sint_of_nat32: "n < 2 ^ 31 \<Longrightarrow> sint (of_nat n :: int32) = int n"
  by (simp add: signed_of_nat signed_take_bit_int_eq_self)

lemma sint_neg_of_nat32: "n \<le> 2 ^ 31 \<Longrightarrow> sint (- of_nat n :: int32) = - int n"
proof -
  assume n: "n \<le> 2 ^ 31"
  have "(- of_nat n :: int32) = word_of_int (- int n)" by simp
  then have "sint (- of_nat n :: int32) = signed_take_bit 31 (- int n)"
    by (simp only: sint_sbintrunc') simp
  also have "\<dots> = - int n"
    using n by (intro signed_take_bit_int_eq_self) auto
  finally show ?thesis .
qed

lemma from_bytes_pair: "from_bytes (to_bytes 2 c) = (c :: TCHAR)"
  using from_to_bytes [of 2 c] by (simp add: take_bit_word_eq_self)

lemma from_to_UTF16: "from_UTF16 (to_UTF16 cs) = cs"
proof (induction cs)
  case Nil
  show ?case by (simp add: to_UTF16_def)
next
  case (Cons c cs)
  have two: "to_bytes 2 c = [ucast c, ucast (drop_bit 8 c)]"
    by (simp add: numeral_2_eq_2)
  have "from_bytes [ucast c, ucast (drop_bit 8 c)] = c"
    using from_bytes_pair [of c] by (simp only: two)
  then show ?case
    using Cons by (simp add: to_UTF16_def two del: from_bytes.simps)
qed

lemma length_to_UTF16: "length (to_UTF16 cs) = 2 * length cs"
  by (induction cs) (simp_all add: to_UTF16_def length_to_bytes)

lemma ucast_ansi: "c \<le> 0x7F \<Longrightarrow> ucast (ucast c :: uint8) = (c :: TCHAR)"
proof -
  assume a: "c \<le> 0x7F"
  have "(0x7F :: TCHAR) < 2 ^ 8" by simp
  with a have lt: "c < 2 ^ 8" by (rule order_le_less_trans)
  have "ucast (ucast c :: uint8) = take_bit 8 c"
    by (rule bit_word_eqI) (auto simp: bit_simps)
  also have "\<dots> = c"
    using lt by (simp add: take_bit_eq_mask less_mask_eq)
  finally show ?thesis .
qed

lemma ucast_uint8_not_FFFF: "(ucast (b :: uint8) :: TCHAR) \<noteq> 0xFFFF"
proof
  assume "(ucast b :: TCHAR) = 0xFFFF"
  then have "bit (ucast b :: TCHAR) 8 = bit (0xFFFF :: TCHAR) 8" by simp
  then show False by (auto simp: bit_simps dest: bit_imp_le_length)
qed

lemma Save_FString_append: "Save_FString A bs = bs @ Save_FString A []"
  by (simp add: Save_FString_def Save_def)

lemma TrimAtFFFF_id: "0xFFFF \<notin> set A \<Longrightarrow> TrimAtFFFF A = A"
  by (simp add: TrimAtFFFF_def)

lemma TrimAtFFFF_free: "0xFFFF \<notin> set (TrimAtFFFF A)"
  by (auto simp: TrimAtFFFF_def dest: set_takeWhileD)

lemma length_TrimAtFFFF: "length (TrimAtFFFF A) \<le> length A"
  by (simp add: TrimAtFFFF_def length_takeWhile_le)

lemma length_from_UTF16: "length (from_UTF16 bs) = length bs div 2"
  by (induction bs rule: from_UTF16.induct) simp_all

lemma map_ucast_ansi: "IsPureAnsi A \<Longrightarrow> map ucast (map ucast A :: uint8 list) = A"
  by (induction A) (simp_all add: IsPureAnsi_def ucast_ansi)

lemma Load_FString_at:
  assumes ok: "FString_ok A"
  shows "Load_FString d (Reader_at pre (Save_FString A [] @ rest))
       = (A, Reader_at (pre @ Save_FString A []) rest)"
proof -
  define m where "m = length A + 1"
  have len: "m < 2 ^ 31" and ffff: "0xFFFF \<notin> set A"
    using ok by (simp_all add: FString_ok_def m_def)
  have m_pos: "0 < m" and m_ne: "m \<noteq> 0" by (simp_all add: m_def)
  let ?n = "of_nat m :: int32"
  have sn: "sint ?n = int m"
    using len by (rule sint_of_nat32)
  have sneg: "sint (- ?n) = - int m"
    using len by (intro sint_neg_of_nat32) simp
  have min: "sint MIN_int32 = - (2 ^ 31)"
    by (simp add: MIN_int32_def)
  show ?thesis
  proof (cases "IsPureAnsi A")
    case False
    have not_min: "- ?n \<noteq> MIN_int32"
    proof
      assume "- ?n = MIN_int32"
      then have "sint (- ?n) = sint MIN_int32" by simp
      then have "int m = 2 ^ 31" by (simp add: sneg min)
      then show False using len by simp
    qed
    have neg: "- ?n <s 0"
      using m_pos by (simp only: word_sless_alt sneg) simp
    have body: "Serialize (m * 2) (Reader_at (pre @ Save (- ?n) []) (to_UTF16 (A @ [0]) @ rest))
       = (Some (to_UTF16 (A @ [0])), Reader_at ((pre @ Save (- ?n) []) @ to_UTF16 (A @ [0])) rest)"
    proof -
      have l: "length (to_UTF16 (A @ [0])) = m * 2"
        by (simp add: length_to_UTF16 m_def)
      then have ne: "to_UTF16 (A @ [0]) \<noteq> []"
        using m_pos by auto
      show ?thesis
        using Serialize_at [OF ne, of "pre @ Save (- ?n) []" rest] by (simp only: l)
    qed
    have sv: "Save_FString A [] = Save (- ?n) [] @ to_UTF16 (A @ [0])"
      using False by (simp add: Save_FString_def m_def)
    have ld: "Load (0 :: int32) (Reader_at pre (Save (- ?n) [] @ to_UTF16 (A @ [0]) @ rest))
        = (- ?n, Reader_at (pre @ Save (- ?n) []) (to_UTF16 (A @ [0]) @ rest))"
      by (rule Load_Save_at) simp
    show ?thesis
      unfolding sv Load_FString_def
      using neg not_min body
      by (simp add: ld sn sneg m_ne Let_def from_to_UTF16 TrimAtFFFF_id [OF ffff])
  next
    case True
    show ?thesis
    proof (cases "A = []")
      case Nil: True
      have ld: "Load (0 :: int32) (Reader_at pre (Save (0 :: int32) [] @ rest))
        = (0, Reader_at (pre @ Save (0 :: int32) []) rest)"
        by (rule Load_Save_at) simp
      show ?thesis
        using Nil by (simp add: Save_FString_def IsPureAnsi_def Load_FString_def ld)
    next
      case ne: False
      let ?cs = "map ucast (A @ [0]) :: uint8 list"
      have sv: "Save_FString A [] = Save ?n [] @ ?cs"
        using True ne by (simp add: Save_FString_def m_def)
      have ld: "Load (0 :: int32) (Reader_at pre (Save ?n [] @ ?cs @ rest))
        = (?n, Reader_at (pre @ Save ?n []) (?cs @ rest))"
        by (rule Load_Save_at) simp
      have pos: "\<not> ?n <s 0"
        by (simp only: word_sless_alt sn) simp
      have body: "Serialize m (Reader_at (pre @ Save ?n []) (?cs @ rest))
         = (Some ?cs, Reader_at ((pre @ Save ?n []) @ ?cs) rest)"
      proof -
        have l: "length ?cs = m" by (simp add: m_def)
        then have ne: "?cs \<noteq> []" using m_pos by auto
        show ?thesis
          using Serialize_at [OF ne, of "pre @ Save ?n []" rest] by (simp only: l)
      qed
      have rt: "butlast (map ucast ?cs) = A"
        using map_ucast_ansi [OF True] by (simp add: butlast_append)
      show ?thesis
        unfolding sv Load_FString_def
        using pos body rt
        by (simp add: ld sn m_ne Let_def del: map_append)
    qed
  qed
qed

section \<open>Records and the decoding loops\<close>

lemma Save_TArray_append: "Save_TArray A bs = bs @ Save_TArray A []"
  by (simp add: Save_TArray_def Save_def)

lemma Reader_at_no_error: "\<not> ArIsError (Reader_at pre rest)"
  by (simp add: Reader_at_def)

lemma Load_TArray_at:
  assumes len: "length A < 2 ^ 31"
  shows "Load_TArray d (Reader_at pre (Save_TArray A [] @ rest))
       = (A, Reader_at (pre @ Save_TArray A []) rest)"
proof -
  let ?n = "of_nat (length A) :: int32"
  have sn: "sint ?n = int (length A)"
    using len by (rule sint_of_nat32)
  have ld: "Load (0 :: int32) (Reader_at pre (Save ?n [] @ A @ rest))
        = (?n, Reader_at (pre @ Save ?n []) (A @ rest))"
    by (rule Load_Save_at) simp
  have sv: "Save_TArray A [] = Save ?n [] @ A"
    by (simp add: Save_TArray_def)
  show ?thesis
  proof (cases "A = []")
    case True
    have ld0: "Load (0 :: int32) (Reader_at pre (Save (0 :: int32) [] @ rest))
        = (0, Reader_at (pre @ Save (0 :: int32) []) rest)"
      by (rule Load_Save_at) simp
    show ?thesis
      using True by (simp add: Save_TArray_def Load_TArray_def ld0)
  next
    case False
    have nz: "?n \<noteq> 0"
    proof
      assume "?n = 0"
      then have "sint ?n = 0" by simp
      with False show False by (simp add: sn)
    qed
    have pos: "0 <s ?n"
      using False by (simp only: word_sless_alt sn) simp
    have body: "Serialize (length A) (Reader_at (pre @ Save ?n []) (A @ rest))
        = (Some A, Reader_at ((pre @ Save ?n []) @ A) rest)"
      using False by (rule Serialize_at)
    show ?thesis
      unfolding sv Load_TArray_def
      using nz pos body by (simp add: ld sn Reader_at_no_error)
  qed
qed

lemma Save_FSerializedData_append:
  "Save_FSerializedData r bs = bs @ Save_FSerializedData r []"
proof -
  have "Save_FSerializedData r bs
      = ((bs @ Save (DataType r) []) @ Save_FString (Key r) []) @ Save_TArray (Data r) []"
    unfolding Save_FSerializedData_def
    by (metis Save_append Save_FString_append Save_TArray_append)
  moreover have "Save_FSerializedData r []
      = (Save (DataType r) [] @ Save_FString (Key r) []) @ Save_TArray (Data r) []"
    unfolding Save_FSerializedData_def
    by (metis Save_FString_append Save_TArray_append)
  ultimately show ?thesis by simp
qed

lemma Save_FSerializedData_parts:
  "Save_FSerializedData r []
     = Save (DataType r) [] @ Save_FString (Key r) [] @ Save_TArray (Data r) []"
  unfolding Save_FSerializedData_def
  by (metis Save_FString_append Save_TArray_append append_assoc)

lemma Save_FSerializedData_nonempty: "Save_FSerializedData r [] \<noteq> []"
  by (simp add: Save_FSerializedData_parts Save_def sizeof_def)

lemma Load_FSerializedData_at:
  assumes ok: "Record_ok r"
  shows "Load_FSerializedData d (Reader_at pre (Save_FSerializedData r [] @ rest))
       = (r, Reader_at (pre @ Save_FSerializedData r []) rest)"
proof -
  have k: "FString_ok (Key r)" and l: "length (Data r) < 2 ^ 31"
    using ok by (simp_all add: Record_ok_def)
  let ?t = "Save (DataType r) []" and ?k = "Save_FString (Key r) []"
  let ?d = "Save_TArray (Data r) []"
  have 1: "Load (DataType d) (Reader_at pre (?t @ ?k @ ?d @ rest))
         = (DataType r, Reader_at (pre @ ?t) (?k @ ?d @ rest))"
    by (rule Load_Save_at) simp
  have 2: "Load_FString (Key d) (Reader_at (pre @ ?t) (?k @ ?d @ rest))
         = (Key r, Reader_at (pre @ ?t @ ?k) (?d @ rest))"
    using Load_FString_at [OF k, of "Key d" "pre @ ?t" "?d @ rest"] by simp
  have 3: "Load_TArray (Data d) (Reader_at (pre @ ?t @ ?k) (?d @ rest))
         = (Data r, Reader_at (pre @ ?t @ ?k @ ?d) rest)"
    using Load_TArray_at [OF l, of "Data d" "pre @ ?t @ ?k" rest] by simp
  show ?thesis
    by (simp add: Load_FSerializedData_def Save_FSerializedData_parts 1 2 3)
qed

lemma WriteAll_Nil: "WriteAll [] = []"
  by (simp add: WriteAll_def)

lemma fold_Save_append:
  "fold Save_FSerializedData rs bs = bs @ fold Save_FSerializedData rs []"
proof (induction rs arbitrary: bs)
  case Nil
  show ?case by simp
next
  case (Cons r rs)
  have "fold Save_FSerializedData (r # rs) bs = fold Save_FSerializedData rs (Save_FSerializedData r bs)"
    by simp
  also have "\<dots> = Save_FSerializedData r bs @ fold Save_FSerializedData rs []"
    by (rule Cons.IH)
  also have "\<dots> = bs @ Save_FSerializedData r [] @ fold Save_FSerializedData rs []"
    using Save_FSerializedData_append [of r bs] by simp
  also have "Save_FSerializedData r [] @ fold Save_FSerializedData rs []
           = fold Save_FSerializedData (r # rs) []"
    using Cons.IH [of "Save_FSerializedData r []"] by simp
  finally show ?case .
qed

lemma WriteAll_Cons: "WriteAll (r # rs) = Save_FSerializedData r [] @ WriteAll rs"
  using fold_Save_append [of rs "Save_FSerializedData r []"] by (simp add: WriteAll_def)

lemma WriteAll_single: "WriteAll [r] = Save_FSerializedData r []"
  by (simp add: WriteAll_Cons WriteAll_Nil)

lemma ReadExistingData_at:
  "list_all Record_ok rs \<Longrightarrow>
   ReadExistingData (Reader_at pre (WriteAll rs)) acc = Some (acc @ rs)"
proof (induction rs arbitrary: pre acc)
  case Nil
  show ?case
    by (subst ReadExistingData.simps) (simp add: WriteAll_Nil AtEnd_at)
next
  case (Cons r rs)
  from Cons.prems have r: "Record_ok r" and rs: "list_all Record_ok rs" by simp_all
  have ne: "\<not> AtEnd (Reader_at pre (WriteAll (r # rs)))"
    by (simp add: AtEnd_at WriteAll_Cons Save_FSerializedData_nonempty)
  have step: "Load_FSerializedData FSerializedData_default (Reader_at pre (WriteAll (r # rs)))
        = (r, Reader_at (pre @ Save_FSerializedData r []) (WriteAll rs))"
    unfolding WriteAll_Cons using r by (rule Load_FSerializedData_at)
  have "ReadExistingData (Reader_at pre (WriteAll (r # rs))) acc
      = ReadExistingData (Reader_at (pre @ Save_FSerializedData r []) (WriteAll rs)) (acc @ [r])"
    by (subst ReadExistingData.simps) (simp add: ne step)
  also have "\<dots> = Some ((acc @ [r]) @ rs)"
    using rs by (rule Cons.IH)
  finally show ?case by simp
qed

lemma ReadExistingData_WriteAll:
  "list_all Record_ok rs \<Longrightarrow> ReadExistingData (MemoryReader (WriteAll rs)) [] = Some rs"
  using ReadExistingData_at [of rs "[]" "[]"] by (simp add: MemoryReader_at)

lemma FindData_at:
  "list_all Record_ok rs \<Longrightarrow>
   FindData k (Reader_at pre (WriteAll rs)) = Some (find (\<lambda>r. FString_eq (Key r) k) rs)"
proof (induction rs arbitrary: pre)
  case Nil
  show ?case
    by (subst FindData.simps) (simp add: WriteAll_Nil AtEnd_at)
next
  case (Cons r rs)
  from Cons.prems have r: "Record_ok r" and rs: "list_all Record_ok rs" by simp_all
  have ne: "\<not> AtEnd (Reader_at pre (WriteAll (r # rs)))"
    by (simp add: AtEnd_at WriteAll_Cons Save_FSerializedData_nonempty)
  have step: "Load_FSerializedData FSerializedData_default (Reader_at pre (WriteAll (r # rs)))
        = (r, Reader_at (pre @ Save_FSerializedData r []) (WriteAll rs))"
    unfolding WriteAll_Cons using r by (rule Load_FSerializedData_at)
  show ?case
  proof (cases "FString_eq (Key r) k")
    case True
    then show ?thesis
      by (subst FindData.simps) (simp add: ne step)
  next
    case False
    have "FindData k (Reader_at pre (WriteAll (r # rs)))
        = FindData k (Reader_at (pre @ Save_FSerializedData r []) (WriteAll rs))"
      using False by (subst FindData.simps) (simp add: ne step)
    also have "\<dots> = Some (find (\<lambda>r. FString_eq (Key r) k) rs)"
      using rs by (rule Cons.IH)
    finally show ?thesis using False by simp
  qed
qed

lemma FindData_WriteAll:
  "list_all Record_ok rs \<Longrightarrow>
   FindData k (MemoryReader (WriteAll rs)) = Some (find (\<lambda>r. FString_eq (Key r) k) rs)"
  using FindData_at [of rs k "[]"] by (simp add: MemoryReader_at)

lemma nat_sint_bound: "nat (sint (x :: int32)) < 2 ^ 31"
proof -
  have "sint x < 2 ^ 31" using sint_lt [of x] by simp
  then show ?thesis by (simp add: nat_less_iff)
qed

lemma FString_ok_Nil: "FString_ok []"
  by (simp add: FString_ok_def)

lemma FString_ok_utf16:
  assumes "Serialize (nat (sint (x :: int32)) * 2) Ar = (Some bs, Ar')"
  shows "FString_ok (TrimAtFFFF (butlast (from_UTF16 bs)))"
proof -
  have "length bs = nat (sint x) * 2"
    using assms by (rule Serialize_Some_length)
  then have "length (butlast (from_UTF16 bs)) = nat (sint x) - 1"
    by (simp add: length_from_UTF16)
  then have "length (TrimAtFFFF (butlast (from_UTF16 bs))) \<le> nat (sint x) - 1"
    using length_TrimAtFFFF [of "butlast (from_UTF16 bs)"] by simp
  then show ?thesis
    using nat_sint_bound [of x] by (simp add: FString_ok_def TrimAtFFFF_free)
qed

lemma FString_ok_ansi:
  assumes "Serialize (nat (sint (x :: int32))) Ar = (Some bs, Ar')"
  shows "FString_ok (butlast (map ucast bs))"
proof -
  have "length bs = nat (sint x)"
    using assms by (rule Serialize_Some_length)
  then have "length (butlast (map ucast bs :: TCHAR list)) = nat (sint x) - 1"
    by simp
  moreover have "0xFFFF \<notin> set (butlast (map ucast bs :: TCHAR list))"
    by (auto dest!: in_set_butlastD simp: ucast_uint8_not_FFFF)
  ultimately show ?thesis
    using nat_sint_bound [of x] by (simp add: FString_ok_def)
qed

lemma Load_FString_ok: "FString_ok d \<Longrightarrow> FString_ok (fst (Load_FString d Ar))"
  by (auto simp: Load_FString_def Let_def FString_ok_Nil FString_ok_utf16 FString_ok_ansi
      split: prod.splits option.splits)

lemma Load_TArray_ok: "length d < 2 ^ 31 \<Longrightarrow> length (fst (Load_TArray d Ar)) < 2 ^ 31"
  using nat_sint_bound
  by (auto simp: Load_TArray_def Let_def split: prod.splits option.splits
      dest!: Serialize_Some_length)

lemma Key_Load_FSerializedData:
  "Key (fst (Load_FSerializedData d Ar))
     = fst (Load_FString (Key d) (snd (Load (DataType d) Ar)))"
  by (simp add: Load_FSerializedData_def split: prod.splits)

lemma Data_Load_FSerializedData:
  "Data (fst (Load_FSerializedData d Ar))
     = fst (Load_TArray (Data d) (snd (Load_FString (Key d) (snd (Load (DataType d) Ar)))))"
  by (simp add: Load_FSerializedData_def split: prod.splits)

lemma Load_FSerializedData_ok:
  "Record_ok d \<Longrightarrow> Record_ok (fst (Load_FSerializedData d Ar))"
proof -
  assume "Record_ok d"
  then have k: "FString_ok (Key d)" and l: "length (Data d) < 2 ^ 31"
    by (simp_all add: Record_ok_def)
  have "FString_ok (Key (fst (Load_FSerializedData d Ar)))"
    unfolding Key_Load_FSerializedData using k by (rule Load_FString_ok)
  moreover have "length (Data (fst (Load_FSerializedData d Ar))) < 2 ^ 31"
    unfolding Data_Load_FSerializedData using l by (rule Load_TArray_ok)
  ultimately show ?thesis
    unfolding Record_ok_def by (rule conjI)
qed

lemma Record_ok_default: "Record_ok FSerializedData_default"
  by (simp add: Record_ok_def FSerializedData_default_def FString_ok_Nil)

lemmas ReadExistingData_induct =
  ReadExistingData.raw_induct [rotated 1, consumes 1, case_names step]

lemma ReadExistingData_ok:
  "ReadExistingData Ar acc = Some rs \<Longrightarrow> list_all Record_ok acc \<Longrightarrow> list_all Record_ok rs"
proof (induction rule: ReadExistingData_induct)
  case (step f Ar acc rs)
  show ?case
  proof (cases "AtEnd Ar")
    case True
    with step show ?thesis by simp
  next
    case False
    let ?r = "fst (Load_FSerializedData FSerializedData_default Ar)"
    have "Record_ok ?r"
      using Record_ok_default by (rule Load_FSerializedData_ok)
    with "step.prems" have "list_all Record_ok (acc @ [?r])" by simp
    moreover from "step.hyps" False
    have "f (snd (Load_FSerializedData FSerializedData_default Ar)) (acc @ [?r]) = Some rs"
      by simp
    ultimately show ?thesis by (rule "step.IH" [rotated])
  qed
qed

lemma Load_FString_error: "ArIsError Ar \<Longrightarrow> Load_FString d Ar = ([], Ar)"
  by (simp add: Load_FString_def Load_error)

lemma Load_TArray_error: "ArIsError Ar \<Longrightarrow> Load_TArray d Ar = ([], Ar)"
  by (simp add: Load_TArray_def Load_error)

lemma Load_FSerializedData_error:
  "ArIsError Ar \<Longrightarrow>
   Load_FSerializedData d Ar = (\<lparr>DataType = DataType d, Key = [], Data = []\<rparr>, Ar)"
  by (simp add: Load_FSerializedData_def Load_error Load_FString_error Load_TArray_error)

lemma ReadExistingData_stuck_aux:
  "ReadExistingData Ar acc = Some rs \<Longrightarrow> \<not> (ArIsError Ar \<and> \<not> AtEnd Ar)"
proof (induction rule: ReadExistingData_induct)
  case (step f Ar acc rs)
  show ?case
  proof
    assume stuck: "ArIsError Ar \<and> \<not> AtEnd Ar"
    then have "snd (Load_FSerializedData FSerializedData_default Ar) = Ar"
      by (simp add: Load_FSerializedData_error)
    with "step.hyps" stuck
    have "f Ar (acc @ [fst (Load_FSerializedData FSerializedData_default Ar)]) = Some rs"
      by simp
    then have "\<not> (ArIsError Ar \<and> \<not> AtEnd Ar)" by (rule "step.IH")
    with stuck show False by simp
  qed
qed

lemma ReadExistingData_stuck:
  "ArIsError Ar \<Longrightarrow> \<not> AtEnd Ar \<Longrightarrow> ReadExistingData Ar acc = None"
  using ReadExistingData_stuck_aux [of Ar acc] by (cases "ReadExistingData Ar acc") auto

section \<open>The store operations\<close>

lemma ReadExistingData_prefix:
  "list_all Record_ok rs \<Longrightarrow>
   ReadExistingData (Reader_at pre (WriteAll rs @ rest)) acc
     = ReadExistingData (Reader_at (pre @ WriteAll rs) rest) (acc @ rs)"
proof (induction rs arbitrary: pre acc)
  case Nil
  show ?case by (simp add: WriteAll_Nil)
next
  case (Cons r rs)
  from Cons.prems have r: "Record_ok r" and rs: "list_all Record_ok rs" by simp_all
  let ?b = "Save_FSerializedData r []"
  have ne: "\<not> AtEnd (Reader_at pre (?b @ WriteAll rs @ rest))"
    by (simp add: AtEnd_at Save_FSerializedData_nonempty)
  have step: "Load_FSerializedData FSerializedData_default (Reader_at pre (?b @ WriteAll rs @ rest))
        = (r, Reader_at (pre @ ?b) (WriteAll rs @ rest))"
    using r by (rule Load_FSerializedData_at)
  have "ReadExistingData (Reader_at pre (?b @ WriteAll rs @ rest)) acc
      = ReadExistingData (Reader_at (pre @ ?b) (WriteAll rs @ rest)) (acc @ [r])"
    by (subst ReadExistingData.simps) (simp add: ne step)
  also have "\<dots> = ReadExistingData (Reader_at ((pre @ ?b) @ WriteAll rs) rest) ((acc @ [r]) @ rs)"
    using rs by (rule Cons.IH)
  finally show ?case by (simp add: WriteAll_Cons)
qed

lemma Load_FSerializedData_cut:
  assumes "length c < 4"
  shows "Load_FSerializedData d (Reader_at pre (t # c))
       = (\<lparr>DataType = t, Key = [], Data = []\<rparr>, SetError (Reader_at (pre @ [t]) c))"
proof -
  have 1: "Load (DataType d) (Reader_at pre (t # c)) = (t, Reader_at (pre @ [t]) c)"
    using Load_Save_at [of "DataType d" pre t c] by (simp add: Save_def sizeof_def)
  have 2: "Load (0 :: int32) (Reader_at (pre @ [t]) c) = (0, SetError (Reader_at (pre @ [t]) c))"
    using assms by (simp add: Load_def sizeof_def Serialize_short)
  have err: "ArIsError (SetError (Reader_at (pre @ [t]) c))"
    by (simp add: SetError_def)
  have 3: "Load_FString (Key d) (Reader_at (pre @ [t]) c) = ([], SetError (Reader_at (pre @ [t]) c))"
    by (simp add: Load_FString_def 2)
  have 4: "Load_TArray (Data d) (SetError (Reader_at (pre @ [t]) c)) = ([], SetError (Reader_at (pre @ [t]) c))"
    using err by (rule Load_TArray_error)
  show ?thesis
    by (simp add: Load_FSerializedData_def 1 3 4)
qed

lemma ReadExistingData_cut:
  assumes rs: "list_all Record_ok rs" and c: "c \<noteq> []" "length c < 4"
  shows "ReadExistingData (MemoryReader (WriteAll rs @ t # c)) [] = None"
proof -
  let ?Ar = "Reader_at (WriteAll rs) (t # c)"
  let ?E = "SetError (Reader_at (WriteAll rs @ [t]) c)"
  have "ReadExistingData (MemoryReader (WriteAll rs @ t # c)) [] = ReadExistingData ?Ar rs"
    using ReadExistingData_prefix [OF rs, of "[]" "t # c" "[]"] by (simp add: MemoryReader_at)
  also have "\<dots> = ReadExistingData ?E (rs @ [\<lparr>DataType = t, Key = [], Data = []\<rparr>])"
    by (subst ReadExistingData.simps) (simp add: AtEnd_at Load_FSerializedData_cut [OF c(2)])
  also have "\<dots> = None"
  proof (rule ReadExistingData_stuck)
    show "ArIsError ?E" by (simp add: SetError_def)
    show "\<not> AtEnd ?E"
      using c by (simp add: AtEnd_def TotalSize_def SetError_def Reader_at_def)
  qed
  finally show ?thesis .
qed

lemma StoredRecords_WriteAll:
  "Files P p = Some (WriteAll rs) \<Longrightarrow> list_all Record_ok rs \<Longrightarrow> StoredRecords p P = Some rs"
  by (simp add: StoredRecords_def ReadExistingData_WriteAll)

lemma list_all_RemoveAll: "list_all Q rs \<Longrightarrow> list_all Q (RemoveAll Pred rs)"
  by (simp add: RemoveAll_def list_all_iff)

lemma Files_SaveArrayToFile:
  "SaveArrayToFile bs p P = (True, P') \<Longrightarrow>
   Files P' = (Files P)(p \<mapsto> bs) \<and> Written P' = Written P @ [(p, bs)]
   \<and> ReadFails P' = ReadFails P \<and> WriteFails P' = WriteFails P \<and> \<not> WriteFails P p"
  by (auto simp: SaveArrayToFile_def split: if_splits)

lemma SaveData_True:
  assumes "SaveData k d t p P = Some (True, P')"
  shows "\<exists>rs. (Files P p = None \<and> rs = [] \<or> StoredRecords p P = Some rs)
            \<and> list_all Record_ok rs
            \<and> Files P' = (Files P)(p \<mapsto> WriteAll (RemoveAll (\<lambda>Entry. FString_eq (Key Entry) k) rs
                                   @ [\<lparr>DataType = t, Key = k, Data = d\<rparr>]))
            \<and> ReadFails P' = ReadFails P \<and> WriteFails P' = WriteFails P
            \<and> \<not> WriteFails P p \<and> (Files P p \<noteq> None \<longrightarrow> \<not> ReadFails P p)"
proof (cases "Files P p")
  case None
  with assms have "SaveArrayToFile (WriteAll [\<lparr>DataType = t, Key = k, Data = d\<rparr>]) p P = (True, P')"
    by (simp add: SaveData_def FileExists_def WriteAll_single)
  from Files_SaveArrayToFile [OF this] None show ?thesis
    by (intro exI [of _ "[]"]) (simp add: RemoveAll_def)
next
  case (Some bs)
  with assms have rf: "\<not> ReadFails P p"
    by (auto simp: SaveData_def FileExists_def LoadFileToArray_def split: if_splits)
  with assms Some obtain rs where rs: "ReadExistingData (MemoryReader bs) [] = Some rs"
    and sv: "SaveArrayToFile (WriteAll (RemoveAll (\<lambda>Entry. FString_eq (Key Entry) k) rs
               @ [\<lparr>DataType = t, Key = k, Data = d\<rparr>])) p P = (True, P')"
    by (auto simp: SaveData_def FileExists_def LoadFileToArray_def Let_def split: option.splits)
  from rs have ok: "list_all Record_ok rs"
    by (rule ReadExistingData_ok) simp
  from rs Some have "StoredRecords p P = Some rs"
    by (simp add: StoredRecords_def)
  with Files_SaveArrayToFile [OF sv] ok rf Some show ?thesis
    by (intro exI [of _ rs]) simp
qed

lemma DeleteData_True:
  assumes "DeleteData k p P = Some (True, P')"
  shows "\<exists>rs. StoredRecords p P = Some rs \<and> list_all Record_ok rs
            \<and> Files P' = (Files P)(p \<mapsto> WriteAll (RemoveAll (\<lambda>Entry. FString_eq (Key Entry) k) rs))
            \<and> Written P' = Written P @ [(p, WriteAll (RemoveAll (\<lambda>Entry. FString_eq (Key Entry) k) rs))]
            \<and> ReadFails P' = ReadFails P \<and> WriteFails P' = WriteFails P
            \<and> \<not> WriteFails P p \<and> \<not> ReadFails P p"
proof (cases "Files P p")
  case None
  with assms show ?thesis by (simp add: DeleteData_def FileExists_def)
next
  case (Some bs)
  with assms have rf: "\<not> ReadFails P p"
    by (auto simp: DeleteData_def FileExists_def LoadFileToArray_def split: if_splits)
  with assms Some obtain rs where rs: "ReadExistingData (MemoryReader bs) [] = Some rs"
    and sv: "SaveArrayToFile (WriteAll (RemoveAll (\<lambda>Entry. FString_eq (Key Entry) k) rs)) p P = (True, P')"
    by (auto simp: DeleteData_def FileExists_def LoadFileToArray_def Let_def split: option.splits)
  from rs have ok: "list_all Record_ok rs"
    by (rule ReadExistingData_ok) simp
  from rs Some have "StoredRecords p P = Some rs"
    by (simp add: StoredRecords_def)
  with Files_SaveArrayToFile [OF sv] ok rf show ?thesis
    by (intro exI [of _ rs]) simp
qed

section \<open>Typed value codec: round trips\<close>












section \<open>Typed value codec: enumerations and short input\<close>

lemma to_bytes_4: "to_bytes 4 (v :: uint32) = ucast v # to_bytes 3 (drop_bit 8 v)"
  by (simp add: numeral_eq_Suc)

lemma Load_uint8_head:
  "Load (d :: uint8) (MemoryReader (b # bs)) = (b, Reader_at [b] bs)"
  by (simp add: Load_def sizeof_def Serialize_def MemoryReader_def TotalSize_def Reader_at_def)

lemma unat_ucast_uint8_less: "unat (ucast (v :: uint32) :: uint8) < 256"
  using unsigned_less [of "ucast v :: uint8", where 'a = nat] by simp

text \<open>
  Claim C6. \<open>ByteArrayToEnum\<close> reads one byte whatever the width of the encoder: of
  the four bytes written by the 32-bit \<open>EnumToByteArray\<close> it returns the first, which is
  the low byte of the value, so for every value from 256 on the decoded value differs
  from the encoded one.
\<close>

theorem enum_width_misread:
  "ByteArrayToEnum (EnumToByteArray_uint32 v) = hd (EnumToByteArray_uint32 v)
   \<and> ByteArrayToEnum (EnumToByteArray_uint32 v) = ucast v
   \<and> (256 \<le> unat v \<longrightarrow> unat (ByteArrayToEnum (EnumToByteArray_uint32 v)) \<noteq> unat v)"
proof -
  have enc: "EnumToByteArray_uint32 v = ucast v # to_bytes 3 (drop_bit 8 v)"
    by (simp add: EnumToByteArray_uint32_def sizeof_def to_bytes_4)
  have dec: "ByteArrayToEnum (EnumToByteArray_uint32 v) = ucast v"
    by (simp add: ByteArrayToEnum_def enc Load_uint8_head)
  show ?thesis
    using unat_ucast_uint8_less [of v] by (simp add: dec) (simp add: enc)
qed

theorem enum_width_misread_witness:
  "256 \<le> unat (256 :: uint32)
   \<and> ByteArrayToEnum (EnumToByteArray_uint32 256) = hd (EnumToByteArray_uint32 256)
   \<and> unat (ByteArrayToEnum (EnumToByteArray_uint32 256)) \<noteq> unat (256 :: uint32)"
proof -
  have h: "256 \<le> unat (256 :: uint32)" by simp
  with enum_width_misread [of 256] show ?thesis by blast
qed

lemma Load_short:
  "length bs < sizeof d \<Longrightarrow> fst (Load d (MemoryReader bs)) = d"
  by (simp add: Load_def Serialize_def MemoryReader_def TotalSize_def)

lemma Load_bool_short: "fst (Load_bool False (MemoryReader [])) = False"
  by (simp add: Load_bool_def split_beta Load_short sizeof_def)

text \<open>
  Claim C10. The fixed-width decoders return the value their local variable was
  initialised with when the array is too short: on the empty array \<open>ByteArrayToInt\<close>
  returns 0, \<open>ByteArrayToFloat\<close> the pattern of 0.0, \<open>ByteArrayToBool\<close> false and
  \<open>ByteArrayToEnum\<close> 0, and the first two do so on every array of fewer than four
  bytes.
\<close>

theorem decoders_default_on_short_input:
  "ByteArrayToInt [] = 0 \<and> ByteArrayToFloat [] = 0
   \<and> ByteArrayToBool [] = False \<and> ByteArrayToEnum [] = 0
   \<and> (length bs < 4 \<longrightarrow> ByteArrayToInt bs = 0 \<and> ByteArrayToFloat bs = 0)"
  by (simp add: ByteArrayToInt_def ByteArrayToFloat_def ByteArrayToBool_def ByteArrayToEnum_def
      Load_bool_short Load_short sizeof_def)

theorem decoders_default_on_short_input_witness:
  "length [1, 2, 3 :: uint8] < 4
   \<and> ByteArrayToInt [1, 2, 3] = 0 \<and> ByteArrayToFloat [1, 2, 3] = 0"
  using decoders_default_on_short_input [of "[1, 2, 3]"] by simp

section \<open>The store: what each operation leaves\<close>

lemma SaveData_absent:
  "Files P p = None \<Longrightarrow> \<not> WriteFails P p \<Longrightarrow>
   SaveData k d t p P
     = Some (True, P\<lparr>Files := (Files P)(p \<mapsto> WriteAll [\<lparr>DataType = t, Key = k, Data = d\<rparr>]),
                     Written := Written P @ [(p, WriteAll [\<lparr>DataType = t, Key = k, Data = d\<rparr>])]\<rparr>)"
  by (simp add: SaveData_def FileExists_def SaveArrayToFile_def WriteAll_single Let_def)

lemma SaveData_present:
  "Files P p = Some (WriteAll rs) \<Longrightarrow> list_all Record_ok rs \<Longrightarrow>
   \<not> ReadFails P p \<Longrightarrow> \<not> WriteFails P p \<Longrightarrow>
   SaveData k d t p P
     = Some (True, P\<lparr>Files := (Files P)(p \<mapsto> WriteAll (RemoveAll (\<lambda>Entry. FString_eq (Key Entry) k) rs
                                      @ [\<lparr>DataType = t, Key = k, Data = d\<rparr>])),
                     Written := Written P @ [(p, WriteAll (RemoveAll (\<lambda>Entry. FString_eq (Key Entry) k) rs
                                      @ [\<lparr>DataType = t, Key = k, Data = d\<rparr>]))]\<rparr>)"
  by (simp add: SaveData_def FileExists_def LoadFileToArray_def SaveArrayToFile_def
      ReadExistingData_WriteAll Let_def)

lemma DeleteData_decoded:
  "StoredRecords p P = Some rs \<Longrightarrow> \<not> ReadFails P p \<Longrightarrow> \<not> WriteFails P p \<Longrightarrow>
   DeleteData k p P
     = Some (True, P\<lparr>Files := (Files P)(p \<mapsto> WriteAll (RemoveAll (\<lambda>Entry. FString_eq (Key Entry) k) rs)),
                     Written := Written P @ [(p, WriteAll (RemoveAll (\<lambda>Entry. FString_eq (Key Entry) k) rs))]\<rparr>)"
  by (auto simp: StoredRecords_def DeleteData_def FileExists_def LoadFileToArray_def
      SaveArrayToFile_def Let_def split: option.splits)

lemma LoadData_absent:
  "Files P p = None \<Longrightarrow>
   LoadData k od ot p P
     = Some ((False, od, ot), UE_LOG Warning (TEXT ''File not found: '' @ p) P)"
  by (simp add: LoadData_def FileExists_def)

lemma LoadData_unreadable:
  "Files P p \<noteq> None \<Longrightarrow> ReadFails P p \<Longrightarrow>
   LoadData k od ot p P
     = Some ((False, od, ot), UE_LOG Error (TEXT ''Failed to load file: '' @ p) P)"
  by (simp add: LoadData_def FileExists_def LoadFileToArray_def)

lemma LoadData_scanned:
  "Files P p = Some bs \<Longrightarrow> \<not> ReadFails P p \<Longrightarrow> FindData k (MemoryReader bs) = Some None \<Longrightarrow>
   LoadData k od ot p P = Some ((False, od, ot), P)"
  by (simp add: LoadData_def FileExists_def LoadFileToArray_def)

lemma LoadData_present:
  "Files P p = Some (WriteAll rs) \<Longrightarrow> list_all Record_ok rs \<Longrightarrow> \<not> ReadFails P p \<Longrightarrow>
   LoadData k od ot p P
     = Some ((case find (\<lambda>r. FString_eq (Key r) k) rs of
                None \<Rightarrow> (False, od, ot)
              | Some r \<Rightarrow> (True, Data r, DataType r)), P)"
  by (simp add: LoadData_def FileExists_def LoadFileToArray_def FindData_WriteAll
      split: option.splits)

lemma find_RemoveAll_append:
  "find (\<lambda>r. FString_eq (Key r) k) (RemoveAll (\<lambda>Entry. FString_eq (Key Entry) k) rs @ [n]) =
     (if FString_eq (Key n) k then Some n else None)"
  by (induction rs) (simp_all add: RemoveAll_def)

lemma find_RemoveAll_other:
  "\<not> FString_eq a b \<Longrightarrow>
   find (\<lambda>r. FString_eq (Key r) b) (RemoveAll (\<lambda>Entry. FString_eq (Key Entry) a) rs)
     = find (\<lambda>r. FString_eq (Key r) b) rs"
  by (induction rs) (auto simp: RemoveAll_def dest: FString_eq_common)

lemma filter_RemoveAll_same:
  "filter (\<lambda>r. FString_eq (Key r) k) (RemoveAll (\<lambda>Entry. FString_eq (Key Entry) k) rs) = []"
  by (induction rs) (simp_all add: RemoveAll_def)

lemma filter_RemoveAll_exact:
  "filter (\<lambda>r. Key r = k) (RemoveAll (\<lambda>Entry. FString_eq (Key Entry) k) rs) = []"
  by (induction rs) (auto simp: RemoveAll_def)

lemma RemoveAll_RemoveAll_append:
  "FString_eq (Key n) k \<Longrightarrow>
   RemoveAll (\<lambda>Entry. FString_eq (Key Entry) k) (RemoveAll (\<lambda>Entry. FString_eq (Key Entry) k) rs @ [n])
     = RemoveAll (\<lambda>Entry. FString_eq (Key Entry) k) rs"
  by (simp add: RemoveAll_def)


lemma distinct_keys_RemoveAll:
  "distinct (map Key rs) \<Longrightarrow> distinct (map Key (RemoveAll Pred rs))"
  by (simp add: RemoveAll_def distinct_map_filter)

lemma distinct_keys_upsert:
  "distinct (map Key rs) \<Longrightarrow>
   distinct (map Key (RemoveAll (\<lambda>Entry. FString_eq (Key Entry) k) rs @ [\<lparr>DataType = t, Key = k, Data = d\<rparr>]))"
  by (auto simp: RemoveAll_def distinct_map_filter FString_eq_refl)

lemma Record_ok_new:
  "FString_ok k \<Longrightarrow> length d < 2 ^ 31 \<Longrightarrow> Record_ok \<lparr>DataType = t, Key = k, Data = d\<rparr>"
  by (simp add: Record_ok_def)

lemma list_all_upsert:
  "list_all Record_ok rs \<Longrightarrow> FString_ok k \<Longrightarrow> length d < 2 ^ 31 \<Longrightarrow>
   list_all Record_ok (RemoveAll (\<lambda>Entry. FString_eq (Key Entry) k) rs @ [\<lparr>DataType = t, Key = k, Data = d\<rparr>])"
  by (simp add: list_all_RemoveAll Record_ok_new)

lemma SaveData_True_stored:
  assumes sv: "SaveData k d t p P = Some (True, P')"
    and k: "FString_ok k" and d: "length d < 2 ^ 31"
  shows "\<exists>rs. (Files P p = None \<and> rs = [] \<or> StoredRecords p P = Some rs)
            \<and> list_all Record_ok
                 (RemoveAll (\<lambda>Entry. FString_eq (Key Entry) k) rs @ [\<lparr>DataType = t, Key = k, Data = d\<rparr>])
            \<and> Files P' p = Some (WriteAll (RemoveAll (\<lambda>Entry. FString_eq (Key Entry) k) rs
                                   @ [\<lparr>DataType = t, Key = k, Data = d\<rparr>]))
            \<and> StoredRecords p P' = Some (RemoveAll (\<lambda>Entry. FString_eq (Key Entry) k) rs
                                   @ [\<lparr>DataType = t, Key = k, Data = d\<rparr>])
            \<and> ReadFails P' = ReadFails P \<and> WriteFails P' = WriteFails P
            \<and> (Files P p \<noteq> None \<longrightarrow> \<not> ReadFails P p)"
proof -
  from SaveData_True [OF sv] obtain rs where
    src: "Files P p = None \<and> rs = [] \<or> StoredRecords p P = Some rs"
    and ok: "list_all Record_ok rs"
    and f: "Files P' = (Files P)(p \<mapsto> WriteAll (RemoveAll (\<lambda>Entry. FString_eq (Key Entry) k) rs
                                   @ [\<lparr>DataType = t, Key = k, Data = d\<rparr>]))"
    and rest: "ReadFails P' = ReadFails P" "WriteFails P' = WriteFails P"
      "Files P p \<noteq> None \<longrightarrow> \<not> ReadFails P p"
    by blast
  let ?new = "RemoveAll (\<lambda>Entry. FString_eq (Key Entry) k) rs @ [\<lparr>DataType = t, Key = k, Data = d\<rparr>]"
  have ok': "list_all Record_ok ?new"
    using ok k d by (rule list_all_upsert)
  have f': "Files P' p = Some (WriteAll ?new)"
    by (simp add: f)
  have "StoredRecords p P' = Some ?new"
    using f' ok' by (rule StoredRecords_WriteAll)
  with src ok' f' rest show ?thesis by blast
qed

section \<open>The scenario of the specification\<close>

lemma FString_ok_Health: "FString_ok Health"
  by (simp add: FString_ok_def Health_def TEXT_def)

lemma FString_ok_Mana: "FString_ok Mana"
  by (simp add: FString_ok_def Mana_def TEXT_def)

lemma Health_not_Mana: "\<not> FString_eq Health Mana"
  by (simp add: FString_eq_def Health_def Mana_def TEXT_def)

lemma Mana_not_Health: "\<not> FString_eq Mana Health"
  by (simp add: FString_eq_def Health_def Mana_def TEXT_def)

lemma empty_not_Mana: "\<not> FString_eq [] Mana"
  by (simp add: FString_eq_def Mana_def TEXT_def)

lemma Record_ok_Health_42: "Record_ok Health_42"
  by (simp add: Health_42_def Record_ok_new FString_ok_Health)

lemma Record_ok_Mana_5: "Record_ok Mana_5"
  by (simp add: Mana_5_def Record_ok_new FString_ok_Mana)

lemma Platform_after_simps:
  "Files (Platform_after bs w) game_bin = Some bs"
  "\<not> ReadFails (Platform_after bs w) p"
  "\<not> WriteFails (Platform_after bs w) p"
  "Written (Platform_after bs w) = w"
  by (simp_all add: Platform_after_def Platform_empty_def)

lemma Platform_empty_simps:
  "Files Platform_empty p = None"
  "\<not> ReadFails Platform_empty p"
  "\<not> WriteFails Platform_empty p"
  "Written Platform_empty = []"
  by (simp_all add: Platform_empty_def)

lemma SaveData_Health_42:
  "SaveData Health [42, 0, 0, 0] IntType game_bin Platform_empty
     = Some (True, Platform_after (WriteAll [Health_42]) [(game_bin, WriteAll [Health_42])])"
  unfolding Platform_after_def Platform_empty_def
  by (simp add: SaveData_absent Health_42_def)

lemma SaveData_Health_7:
  "SaveData Health [7, 0, 0, 0] IntType game_bin (Platform_after (WriteAll [Health_42]) w)
     = Some (True, Platform_after (WriteAll [Health_7]) (w @ [(game_bin, WriteAll [Health_7])]))"
  unfolding Platform_after_def Platform_empty_def
  by (simp add: SaveData_present [where rs = "[Health_42]"] Record_ok_Health_42 RemoveAll_def
      Health_7_def) (simp add: Health_42_def)

section \<open>Upsert\<close>

text \<open>
  Claim C2, amended. For a key that an archive gives back as it was written (its count
  fits an \<open>int32\<close> and it has no code unit \<open>0xFFFF\<close>), a successful \<open>SaveData\<close> of the key
  followed by \<open>LoadData\<close> of that key from the same path returns true with the payload
  and the type that were saved, given that the file can be read back.
\<close>

theorem SaveData_then_LoadData:
  assumes "SaveData k d t p P = Some (True, P1)"
    and "FString_ok k" and "length d < 2 ^ 31" and "\<not> ReadFails P1 p"
  shows "LoadData k OutData OutDataType p P1 = Some ((True, d, t), P1)"
proof -
  from SaveData_True_stored [OF assms(1-3)] obtain rs where
    ok: "list_all Record_ok
           (RemoveAll (\<lambda>Entry. FString_eq (Key Entry) k) rs @ [\<lparr>DataType = t, Key = k, Data = d\<rparr>])"
    and f: "Files P1 p = Some (WriteAll (RemoveAll (\<lambda>Entry. FString_eq (Key Entry) k) rs
                                   @ [\<lparr>DataType = t, Key = k, Data = d\<rparr>]))"
    by blast
  show ?thesis
    using LoadData_present [OF f ok assms(4), of k OutData OutDataType]
    by (simp add: find_RemoveAll_append)
qed

theorem SaveData_then_LoadData_witness:
  "SaveData Health [42, 0, 0, 0] IntType game_bin Platform_empty
     = Some (True, Platform_after (WriteAll [Health_42]) [(game_bin, WriteAll [Health_42])])
   \<and> FString_ok Health \<and> length [42, 0, 0, 0 :: uint8] < 2 ^ 31
   \<and> \<not> ReadFails (Platform_after (WriteAll [Health_42]) [(game_bin, WriteAll [Health_42])]) game_bin
   \<and> LoadData Health [] FloatType game_bin
        (Platform_after (WriteAll [Health_42]) [(game_bin, WriteAll [Health_42])])
      = Some ((True, [42, 0, 0, 0], IntType),
              Platform_after (WriteAll [Health_42]) [(game_bin, WriteAll [Health_42])])"
proof -
  have l: "length [42, 0, 0, 0 :: uint8] < 2 ^ 31" by simp
  have r: "\<not> ReadFails (Platform_after (WriteAll [Health_42]) [(game_bin, WriteAll [Health_42])]) game_bin"
    by (rule Platform_after_simps)
  show ?thesis
    using SaveData_Health_42 FString_ok_Health l r
      SaveData_then_LoadData [OF SaveData_Health_42 FString_ok_Health l r, of "[]" FloatType]
    by blast
qed

lemma SaveData_once:
  assumes "SaveData k d t p P = Some (True, P')" and "FString_ok k" and "length d < 2 ^ 31"
  shows "\<exists>rs. StoredRecords p P' = Some rs
            \<and> filter (\<lambda>r. Key r = k) rs = [\<lparr>DataType = t, Key = k, Data = d\<rparr>]
            \<and> filter (\<lambda>r. FString_eq (Key r) k) rs = [\<lparr>DataType = t, Key = k, Data = d\<rparr>]"
proof -
  let ?n = "\<lparr>DataType = t, Key = k, Data = d\<rparr>"
  from SaveData_True_stored [OF assms] obtain rs where
    st: "StoredRecords p P' = Some (RemoveAll (\<lambda>Entry. FString_eq (Key Entry) k) rs @ [?n])"
    by blast
  moreover have "filter (\<lambda>r. FString_eq (Key r) k)
      (RemoveAll (\<lambda>Entry. FString_eq (Key Entry) k) rs @ [?n]) = [?n]"
    by (simp add: filter_RemoveAll_same)
  moreover have "filter (\<lambda>r. Key r = k)
      (RemoveAll (\<lambda>Entry. FString_eq (Key Entry) k) rs @ [?n]) = [?n]"
    by (simp add: filter_RemoveAll_exact)
  ultimately show ?thesis by blast
qed

lemma DeleteData_once:
  assumes "DeleteData k p P = Some (True, P')"
  shows "\<exists>rs. StoredRecords p P' = Some rs \<and> filter (\<lambda>r. FString_eq (Key r) k) rs = []"
proof -
  from DeleteData_True [OF assms] obtain rs where
    ok: "list_all Record_ok rs"
    and f: "Files P' = (Files P)(p \<mapsto> WriteAll (RemoveAll (\<lambda>Entry. FString_eq (Key Entry) k) rs))"
    by blast
  have "Files P' p = Some (WriteAll (RemoveAll (\<lambda>Entry. FString_eq (Key Entry) k) rs))"
    by (simp add: f)
  moreover have "list_all Record_ok (RemoveAll (\<lambda>Entry. FString_eq (Key Entry) k) rs)"
    using ok by (rule list_all_RemoveAll)
  ultimately have "StoredRecords p P' = Some (RemoveAll (\<lambda>Entry. FString_eq (Key Entry) k) rs)"
    by (rule StoredRecords_WriteAll)
  then show ?thesis
    by (simp add: filter_RemoveAll_same)
qed

lemma distinct_keys_kept:
  assumes before: "Files Q p = None \<or> (\<exists>rs. StoredRecords p Q = Some rs \<and> distinct (map Key rs))"
    and step: "SaveData k d t p Q = Some (True, Q') \<and> FString_ok k \<and> length d < 2 ^ 31
               \<or> DeleteData k p Q = Some (True, Q')"
  shows "\<exists>rs. StoredRecords p Q' = Some rs \<and> distinct (map Key rs)"
proof -
  from step consider
      (save) "SaveData k d t p Q = Some (True, Q')" "FString_ok k" "length d < 2 ^ 31"
    | (delete) "DeleteData k p Q = Some (True, Q')"
    by blast
  then show ?thesis
  proof cases
    case save
    from SaveData_True_stored [OF save] obtain rs where
      src: "Files Q p = None \<and> rs = [] \<or> StoredRecords p Q = Some rs"
      and st: "StoredRecords p Q' = Some (RemoveAll (\<lambda>Entry. FString_eq (Key Entry) k) rs
                 @ [\<lparr>DataType = t, Key = k, Data = d\<rparr>])"
      by blast
    from src before have "distinct (map Key rs)"
      by (auto simp: StoredRecords_def)
    then have "distinct (map Key (RemoveAll (\<lambda>Entry. FString_eq (Key Entry) k) rs
                 @ [\<lparr>DataType = t, Key = k, Data = d\<rparr>]))"
      by (rule distinct_keys_upsert)
    with st show ?thesis by blast
  next
    case delete
    from DeleteData_True [OF delete] obtain rs where
      src: "StoredRecords p Q = Some rs" and ok: "list_all Record_ok rs"
      and f: "Files Q' = (Files Q)(p \<mapsto> WriteAll (RemoveAll (\<lambda>Entry. FString_eq (Key Entry) k) rs))"
      by blast
    from src before have "distinct (map Key rs)"
      by (auto simp: StoredRecords_def)
    then have dist: "distinct (map Key (RemoveAll (\<lambda>Entry. FString_eq (Key Entry) k) rs))"
      by (rule distinct_keys_RemoveAll)
    have "Files Q' p = Some (WriteAll (RemoveAll (\<lambda>Entry. FString_eq (Key Entry) k) rs))"
      by (simp add: f)
    moreover have "list_all Record_ok (RemoveAll (\<lambda>Entry. FString_eq (Key Entry) k) rs)"
      using ok by (rule list_all_RemoveAll)
    ultimately have "StoredRecords p Q' = Some (RemoveAll (\<lambda>Entry. FString_eq (Key Entry) k) rs)"
      by (rule StoredRecords_WriteAll)
    with dist show ?thesis by blast
  qed
qed

lemma DeleteData_Health_42:
  "DeleteData Health game_bin (Platform_after (WriteAll [Health_42]) w)
     = Some (True, Platform_after (WriteAll []) (w @ [(game_bin, WriteAll [])]))"
proof -
  have st: "StoredRecords game_bin (Platform_after (WriteAll [Health_42]) w) = Some [Health_42]"
    by (rule StoredRecords_WriteAll) (simp_all add: Platform_after_simps Record_ok_Health_42)
  have kept: "RemoveAll (\<lambda>Entry. FString_eq (Key Entry) Health) [Health_42] = []"
    by (simp add: RemoveAll_def Health_42_def)
  show ?thesis
    using DeleteData_decoded [OF st, of Health]
    by (simp add: kept Platform_after_simps) (simp add: Platform_after_def Platform_empty_def)
qed

text \<open>
  Claim C1, amended. For a key that an archive gives back as it was written (its count
  fits an \<open>int32\<close> and it has no code unit \<open>0xFFFF\<close>): after a successful \<open>SaveData\<close> of the
  key followed by a successful \<open>SaveData\<close> of the same key to the same path, decoding the
  file gives exactly one record with that key, the one saved last; this holds for the
  key itself and for the keys the engine takes as equal to it. More generally, whatever
  the file held, after one successful \<open>SaveData\<close> of such a key the file has exactly one
  record with the key, after a successful \<open>DeleteData\<close> it has none, and each of the two
  keeps the keys of the file distinct: on a file that does not exist or whose records
  have distinct keys, it leaves a file whose records have distinct keys.
\<close>

theorem SaveData_no_duplication:
  "(SaveData k d1 t1 p P = Some (True, P1) \<and> SaveData k d2 t2 p P1 = Some (True, P2)
      \<and> FString_ok k \<and> length d2 < 2 ^ 31
    \<longrightarrow> (\<exists>rs. StoredRecords p P2 = Some rs
            \<and> filter (\<lambda>r. Key r = k) rs = [\<lparr>DataType = t2, Key = k, Data = d2\<rparr>]
            \<and> filter (\<lambda>r. FString_eq (Key r) k) rs = [\<lparr>DataType = t2, Key = k, Data = d2\<rparr>]))
   \<and> (SaveData k d t p Q = Some (True, Q') \<and> FString_ok k \<and> length d < 2 ^ 31
    \<longrightarrow> (\<exists>rs. StoredRecords p Q' = Some rs
            \<and> filter (\<lambda>r. FString_eq (Key r) k) rs = [\<lparr>DataType = t, Key = k, Data = d\<rparr>]))
   \<and> (DeleteData k p Q = Some (True, Q')
    \<longrightarrow> (\<exists>rs. StoredRecords p Q' = Some rs \<and> filter (\<lambda>r. FString_eq (Key r) k) rs = []))
   \<and> ((Files Q p = None \<or> (\<exists>rs. StoredRecords p Q = Some rs \<and> distinct (map Key rs)))
      \<and> (SaveData k d t p Q = Some (True, Q') \<and> FString_ok k \<and> length d < 2 ^ 31
          \<or> DeleteData k p Q = Some (True, Q'))
    \<longrightarrow> (\<exists>rs. StoredRecords p Q' = Some rs \<and> distinct (map Key rs)))"
  using SaveData_once [of k d2 t2 p P1 P2] SaveData_once [of k d t p Q Q']
    DeleteData_once [of k p Q Q'] distinct_keys_kept [of Q p k d t Q']
  by blast

theorem SaveData_no_duplication_witness:
  "SaveData Health [42, 0, 0, 0] IntType game_bin Platform_empty
     = Some (True, Platform_after (WriteAll [Health_42]) [(game_bin, WriteAll [Health_42])])
   \<and> SaveData Health [7, 0, 0, 0] IntType game_bin
       (Platform_after (WriteAll [Health_42]) [(game_bin, WriteAll [Health_42])])
     = Some (True, Platform_after (WriteAll [Health_7])
                     [(game_bin, WriteAll [Health_42]), (game_bin, WriteAll [Health_7])])
   \<and> DeleteData Health game_bin
       (Platform_after (WriteAll [Health_42]) [(game_bin, WriteAll [Health_42])])
     = Some (True, Platform_after (WriteAll [])
                     [(game_bin, WriteAll [Health_42]), (game_bin, WriteAll [])])
   \<and> FString_ok Health
   \<and> length [42, 0, 0, 0 :: uint8] < 2 ^ 31 \<and> length [7, 0, 0, 0 :: uint8] < 2 ^ 31
   \<and> Files Platform_empty game_bin = None
   \<and> (\<exists>rs. StoredRecords game_bin
              (Platform_after (WriteAll [Health_7])
                 [(game_bin, WriteAll [Health_42]), (game_bin, WriteAll [Health_7])]) = Some rs
          \<and> filter (\<lambda>r. Key r = Health) rs = [Health_7]
          \<and> filter (\<lambda>r. FString_eq (Key r) Health) rs = [Health_7])
   \<and> (\<exists>rs. StoredRecords game_bin
              (Platform_after (WriteAll [Health_42]) [(game_bin, WriteAll [Health_42])]) = Some rs
          \<and> filter (\<lambda>r. FString_eq (Key r) Health) rs = [Health_42]
          \<and> distinct (map Key rs))
   \<and> (\<exists>rs. StoredRecords game_bin
              (Platform_after (WriteAll [])
                 [(game_bin, WriteAll [Health_42]), (game_bin, WriteAll [])]) = Some rs
          \<and> filter (\<lambda>r. FString_eq (Key r) Health) rs = [])"
proof -
  let ?A = "Platform_after (WriteAll [Health_42]) [(game_bin, WriteAll [Health_42])]"
  let ?B = "Platform_after (WriteAll [Health_7])
              [(game_bin, WriteAll [Health_42]), (game_bin, WriteAll [Health_7])]"
  let ?C = "Platform_after (WriteAll []) [(game_bin, WriteAll [Health_42]), (game_bin, WriteAll [])]"
  have s1: "SaveData Health [42, 0, 0, 0] IntType game_bin Platform_empty = Some (True, ?A)"
    by (rule SaveData_Health_42)
  have s2: "SaveData Health [7, 0, 0, 0] IntType game_bin ?A = Some (True, ?B)"
    using SaveData_Health_7 [of "[(game_bin, WriteAll [Health_42])]"] by simp
  have s3: "DeleteData Health game_bin ?A = Some (True, ?C)"
    using DeleteData_Health_42 [of "[(game_bin, WriteAll [Health_42])]"] by simp
  have l1: "length [42, 0, 0, 0 :: uint8] < 2 ^ 31" and l2: "length [7, 0, 0, 0 :: uint8] < 2 ^ 31"
    by simp_all
  have e: "Files Platform_empty game_bin = None"
    by (rule Platform_empty_simps)
  have n7: "\<lparr>DataType = IntType, Key = Health, Data = [7, 0, 0, 0]\<rparr> = Health_7"
    by (simp add: Health_7_def)
  have n42: "\<lparr>DataType = IntType, Key = Health, Data = [42, 0, 0, 0]\<rparr> = Health_42"
    by (simp add: Health_42_def)
  note save = SaveData_no_duplication [where k = Health and p = game_bin
      and ?d1.0 = "[42, 0, 0, 0]" and ?t1.0 = IntType and P = Platform_empty and ?P1.0 = ?A
      and ?d2.0 = "[7, 0, 0, 0]" and ?t2.0 = IntType and ?P2.0 = ?B
      and Q = Platform_empty and d = "[42, 0, 0, 0]" and t = IntType and Q' = ?A]
  note delete = SaveData_no_duplication [where k = Health and p = game_bin
      and Q = ?A and Q' = ?C]
  from save s1 s2 FString_ok_Health l1 l2 e
  have 1: "\<exists>rs. StoredRecords game_bin ?B = Some rs
          \<and> filter (\<lambda>r. Key r = Health) rs = [Health_7]
          \<and> filter (\<lambda>r. FString_eq (Key r) Health) rs = [Health_7]"
    unfolding n7 by blast
  from save s1 FString_ok_Health l1 e
  have 2: "\<exists>rs. StoredRecords game_bin ?A = Some rs
          \<and> filter (\<lambda>r. FString_eq (Key r) Health) rs = [Health_42]"
    unfolding n42 by blast
  from save s1 FString_ok_Health l1 e
  have 3: "\<exists>rs. StoredRecords game_bin ?A = Some rs \<and> distinct (map Key rs)"
    by blast
  from delete s3
  have 4: "\<exists>rs. StoredRecords game_bin ?C = Some rs
          \<and> filter (\<lambda>r. FString_eq (Key r) Health) rs = []"
    by blast
  from 2 3 have 23: "\<exists>rs. StoredRecords game_bin ?A = Some rs
          \<and> filter (\<lambda>r. FString_eq (Key r) Health) rs = [Health_42] \<and> distinct (map Key rs)"
    by auto
  from s1 s2 s3 FString_ok_Health l1 l2 e 1 23 4 show ?thesis by blast
qed

section \<open>Remove\<close>



text \<open>
  Claim C8. With two distinct keys in a well-formed file, a successful \<open>DeleteData\<close> of the
  first leaves \<open>LoadData\<close> of the second as it was, with the same payload and type, and
  the file then holds the records that remain in the order they had.
\<close>

theorem DeleteData_preserves_others:
  assumes "Files P p = Some (WriteAll rs)" and "list_all Record_ok rs"
    and "b \<in> Key ` set rs" and "\<not> FString_eq a b"
    and "DeleteData a p P = Some (True, P')"
  shows "\<exists>d t. LoadData b OutData OutDataType p P = Some ((True, d, t), P)
             \<and> LoadData b OutData OutDataType p P' = Some ((True, d, t), P')
             \<and> StoredRecords p P' = Some (filter (\<lambda>r. \<not> FString_eq (Key r) a) rs)"
proof -
  have st: "StoredRecords p P = Some rs"
    using assms(1,2) by (rule StoredRecords_WriteAll)
  from DeleteData_True [OF assms(5)] st obtain
    f: "Files P' = (Files P)(p \<mapsto> WriteAll (RemoveAll (\<lambda>Entry. FString_eq (Key Entry) a) rs))"
    and rd: "\<not> ReadFails P p" "ReadFails P' = ReadFails P"
    by auto
  let ?kept = "RemoveAll (\<lambda>Entry. FString_eq (Key Entry) a) rs"
  have ok': "list_all Record_ok ?kept"
    using assms(2) by (rule list_all_RemoveAll)
  have f': "Files P' p = Some (WriteAll ?kept)"
    by (simp add: f)
  from assms(3) obtain x where "x \<in> set rs" and "Key x = b"
    by auto
  then have "FString_eq (Key x) b"
    by simp
  with \<open>x \<in> set rs\<close> have "\<exists>x \<in> set rs. FString_eq (Key x) b"
    by (rule bexI [rotated])
  then obtain r where r: "find (\<lambda>r. FString_eq (Key r) b) rs = Some r"
    by (cases "find (\<lambda>r. FString_eq (Key r) b) rs") (auto simp: find_None_iff)
  have before: "LoadData b OutData OutDataType p P = Some ((True, Data r, DataType r), P)"
    using LoadData_present [OF assms(1,2) rd(1), of b OutData OutDataType] by (simp add: r)
  have rd': "\<not> ReadFails P' p"
    using rd by simp
  have after: "LoadData b OutData OutDataType p P' = Some ((True, Data r, DataType r), P')"
    using LoadData_present [OF f' ok' rd', of b OutData OutDataType]
    by (simp add: find_RemoveAll_other [OF assms(4)] r)
  have "StoredRecords p P' = Some ?kept"
    using f' ok' by (rule StoredRecords_WriteAll)
  then have "StoredRecords p P' = Some (filter (\<lambda>r. \<not> FString_eq (Key r) a) rs)"
    by (simp add: RemoveAll_def)
  with before after show ?thesis by blast
qed

theorem DeleteData_preserves_others_witness:
  "Files (Platform_after (WriteAll [Health_42, Mana_5]) []) game_bin
     = Some (WriteAll [Health_42, Mana_5])
   \<and> list_all Record_ok [Health_42, Mana_5]
   \<and> Mana \<in> Key ` set [Health_42, Mana_5] \<and> \<not> FString_eq Health Mana
   \<and> DeleteData Health game_bin (Platform_after (WriteAll [Health_42, Mana_5]) [])
       = Some (True, Platform_after (WriteAll [Mana_5]) [(game_bin, WriteAll [Mana_5])])
   \<and> (\<exists>d t. LoadData Mana [] FloatType game_bin (Platform_after (WriteAll [Health_42, Mana_5]) [])
               = Some ((True, d, t), Platform_after (WriteAll [Health_42, Mana_5]) [])
           \<and> LoadData Mana [] FloatType game_bin
                 (Platform_after (WriteAll [Mana_5]) [(game_bin, WriteAll [Mana_5])])
               = Some ((True, d, t), Platform_after (WriteAll [Mana_5]) [(game_bin, WriteAll [Mana_5])])
           \<and> StoredRecords game_bin (Platform_after (WriteAll [Mana_5]) [(game_bin, WriteAll [Mana_5])])
               = Some (filter (\<lambda>r. \<not> FString_eq (Key r) Health) [Health_42, Mana_5]))"
proof -
  let ?P = "Platform_after (WriteAll [Health_42, Mana_5]) []"
  let ?P' = "Platform_after (WriteAll [Mana_5]) [(game_bin, WriteAll [Mana_5])]"
  have f: "Files ?P game_bin = Some (WriteAll [Health_42, Mana_5])"
    by (rule Platform_after_simps)
  have ok: "list_all Record_ok [Health_42, Mana_5]"
    by (simp add: Record_ok_Health_42 Record_ok_Mana_5)
  have stored: "Mana \<in> Key ` set [Health_42, Mana_5]"
    by (simp add: Mana_5_def)
  have st: "StoredRecords game_bin ?P = Some [Health_42, Mana_5]"
    using f ok by (rule StoredRecords_WriteAll)
  have kept: "RemoveAll (\<lambda>Entry. FString_eq (Key Entry) Health) [Health_42, Mana_5] = [Mana_5]"
    using Mana_not_Health by (simp add: RemoveAll_def Health_42_def Mana_5_def)
  have del: "DeleteData Health game_bin ?P = Some (True, ?P')"
    using DeleteData_decoded [OF st, of Health]
    by (simp add: kept Platform_after_simps) (simp add: Platform_after_def Platform_empty_def)
  from f ok stored Health_not_Mana del
    DeleteData_preserves_others [OF f ok stored Health_not_Mana del, of "[]" FloatType]
  show ?thesis by blast
qed

section \<open>Lookup\<close>

lemma LoadData_Files:
  "LoadData k od ot p P = Some (r, P') \<Longrightarrow>
   Files P' = Files P \<and> Written P' = Written P"
  by (auto simp: LoadData_def UE_LOG_def split: if_splits option.splits)

text \<open>
  Claim C9. \<open>LoadData\<close> writes nothing: whatever it returns, the content of every file
  and the list of writes asked of the platform are as before the call. It does return when
  the file does not exist and when the file holds well-formed records, whether the key
  is among them or not.
\<close>

theorem LoadData_read_only:
  "(LoadData k OutData OutDataType p P = Some (r, P') \<longrightarrow>
      Files P' = Files P \<and> Written P' = Written P)
   \<and> (Files P p = None \<longrightarrow>
        LoadData k OutData OutDataType p P
          = Some ((False, OutData, OutDataType), UE_LOG Warning (TEXT ''File not found: '' @ p) P))
   \<and> (Files P p = Some (WriteAll rs) \<and> list_all Record_ok rs \<and> \<not> ReadFails P p \<longrightarrow>
        (\<exists>res. LoadData k OutData OutDataType p P = Some (res, P)))"
  using LoadData_Files [of k OutData OutDataType p P r P']
    LoadData_absent [of P p k OutData OutDataType]
    LoadData_present [of P p rs k OutData OutDataType]
  by blast

theorem LoadData_read_only_witness:
  "LoadData Health [] FloatType game_bin (Platform_after (WriteAll [Health_42]) [])
     = Some ((True, [42, 0, 0, 0], IntType), Platform_after (WriteAll [Health_42]) [])
   \<and> Files (Platform_after (WriteAll [Health_42]) []) game_bin = Some (WriteAll [Health_42])
   \<and> list_all Record_ok [Health_42]
   \<and> \<not> ReadFails (Platform_after (WriteAll [Health_42]) []) game_bin
   \<and> Files Platform_empty game_bin = None
   \<and> LoadData Health [] FloatType game_bin Platform_empty
       = Some ((False, [], FloatType), UE_LOG Warning (TEXT ''File not found: '' @ game_bin) Platform_empty)
   \<and> Files (UE_LOG Warning (TEXT ''File not found: '' @ game_bin) Platform_empty) = Files Platform_empty
   \<and> Written (UE_LOG Warning (TEXT ''File not found: '' @ game_bin) Platform_empty) = Written Platform_empty"
proof -
  let ?P = "Platform_after (WriteAll [Health_42]) []"
  let ?L = "UE_LOG Warning (TEXT ''File not found: '' @ game_bin) Platform_empty"
  have f: "Files ?P game_bin = Some (WriteAll [Health_42])"
    and rd: "\<not> ReadFails ?P game_bin"
    by (rule Platform_after_simps)+
  have ok: "list_all Record_ok [Health_42]"
    by (simp add: Record_ok_Health_42)
  have e: "Files Platform_empty game_bin = None"
    by (rule Platform_empty_simps)
  have found: "LoadData Health [] FloatType game_bin ?P = Some ((True, [42, 0, 0, 0], IntType), ?P)"
    using LoadData_present [OF f ok rd, of Health "[]" FloatType] by (simp add: Health_42_def)
  from LoadData_read_only [of Health "[]" FloatType game_bin Platform_empty
      "(False, [], FloatType)" ?L "[]"] e
  have missing: "LoadData Health [] FloatType game_bin Platform_empty = Some ((False, [], FloatType), ?L)"
    and same: "Files ?L = Files Platform_empty \<and> Written ?L = Written Platform_empty"
    by blast+
  from found f ok rd e missing same show ?thesis by blast
qed

text \<open>
  Claim C4 fails as stated: \<open>LoadData\<close> returns false with its outputs untouched both when
  the file cannot be read and when the key is absent. On the file of the scenario, asked
  for the key \<open>Mana\<close>, the platform that reads the file and the one that fails to read it
  get the same result.
\<close>

theorem LoadData_failures_collapse:
  "map_option fst (LoadData Mana [] FloatType game_bin (Platform_after (WriteAll [Health_42]) []))
     = Some (False, [], FloatType)
   \<and> map_option fst (LoadData Mana [] FloatType game_bin (Platform_unreadable (WriteAll [Health_42])))
     = Some (False, [], FloatType)"
proof -
  let ?P = "Platform_after (WriteAll [Health_42]) []"
  have f: "Files ?P game_bin = Some (WriteAll [Health_42])"
    and rd: "\<not> ReadFails ?P game_bin"
    by (rule Platform_after_simps)+
  have ok: "list_all Record_ok [Health_42]"
    by (simp add: Record_ok_Health_42)
  have 1: "LoadData Mana [] FloatType game_bin ?P = Some ((False, [], FloatType), ?P)"
    using LoadData_present [OF f ok rd, of Mana "[]" FloatType] Health_not_Mana
    by (simp add: Health_42_def)
  have 2: "LoadData Mana [] FloatType game_bin (Platform_unreadable (WriteAll [Health_42]))
      = Some ((False, [], FloatType),
              UE_LOG Error (TEXT ''Failed to load file: '' @ game_bin)
                (Platform_unreadable (WriteAll [Health_42])))"
    by (rule LoadData_unreadable)
      (simp_all add: Platform_unreadable_def Platform_after_def Platform_empty_def)
  show ?thesis by (simp add: 1 2)
qed

text \<open>
  Claim C4, amended. \<open>LoadData\<close> has one failure result, false with the outputs as they
  came: it returns it when the file does not exist, when the file cannot be read, and
  when the loop reaches the end of the bytes without the key. The cases differ only in
  the log: a warning line, an error line, no line.
\<close>

theorem LoadData_failure_outcomes:
  "(Files P p = None \<longrightarrow>
      LoadData k OutData OutDataType p P
        = Some ((False, OutData, OutDataType), UE_LOG Warning (TEXT ''File not found: '' @ p) P))
   \<and> (Files P p \<noteq> None \<and> ReadFails P p \<longrightarrow>
      LoadData k OutData OutDataType p P
        = Some ((False, OutData, OutDataType), UE_LOG Error (TEXT ''Failed to load file: '' @ p) P))
   \<and> (Files P p = Some bs \<and> \<not> ReadFails P p \<and> FindData k (MemoryReader bs) = Some None \<longrightarrow>
      LoadData k OutData OutDataType p P = Some ((False, OutData, OutDataType), P))"
  using LoadData_absent [of P p k OutData OutDataType]
    LoadData_unreadable [of P p k OutData OutDataType]
    LoadData_scanned [of P p bs k OutData OutDataType]
  by blast

theorem LoadData_failure_outcomes_witness:
  "Files Platform_empty game_bin = None
   \<and> LoadData Mana [] FloatType game_bin Platform_empty
       = Some ((False, [], FloatType),
               UE_LOG Warning (TEXT ''File not found: '' @ game_bin) Platform_empty)
   \<and> Files (Platform_unreadable (WriteAll [Health_42])) game_bin \<noteq> None
   \<and> ReadFails (Platform_unreadable (WriteAll [Health_42])) game_bin
   \<and> LoadData Mana [] FloatType game_bin (Platform_unreadable (WriteAll [Health_42]))
       = Some ((False, [], FloatType),
               UE_LOG Error (TEXT ''Failed to load file: '' @ game_bin)
                 (Platform_unreadable (WriteAll [Health_42])))
   \<and> Files (Platform_after (WriteAll [Health_42]) []) game_bin = Some (WriteAll [Health_42])
   \<and> \<not> ReadFails (Platform_after (WriteAll [Health_42]) []) game_bin
   \<and> FindData Mana (MemoryReader (WriteAll [Health_42])) = Some None
   \<and> LoadData Mana [] FloatType game_bin (Platform_after (WriteAll [Health_42]) [])
       = Some ((False, [], FloatType), Platform_after (WriteAll [Health_42]) [])"
proof -
  let ?P = "Platform_after (WriteAll [Health_42]) []"
  let ?U = "Platform_unreadable (WriteAll [Health_42])"
  have e: "Files Platform_empty game_bin = None"
    by (rule Platform_empty_simps)
  have u: "Files ?U game_bin \<noteq> None" "ReadFails ?U game_bin"
    by (simp_all add: Platform_unreadable_def Platform_after_def Platform_empty_def)
  have f: "Files ?P game_bin = Some (WriteAll [Health_42])"
    and rd: "\<not> ReadFails ?P game_bin"
    by (rule Platform_after_simps)+
  have scan: "FindData Mana (MemoryReader (WriteAll [Health_42])) = Some None"
    using FindData_WriteAll [of "[Health_42]" Mana] Health_not_Mana
    by (simp add: Record_ok_Health_42) (simp add: Health_42_def)
  from LoadData_failure_outcomes [of Platform_empty game_bin Mana "[]" FloatType "[]"] e
  have 1: "LoadData Mana [] FloatType game_bin Platform_empty
       = Some ((False, [], FloatType),
               UE_LOG Warning (TEXT ''File not found: '' @ game_bin) Platform_empty)"
    by blast
  from LoadData_failure_outcomes [of ?U game_bin Mana "[]" FloatType "[]"] u
  have 2: "LoadData Mana [] FloatType game_bin ?U
       = Some ((False, [], FloatType), UE_LOG Error (TEXT ''Failed to load file: '' @ game_bin) ?U)"
    by blast
  from LoadData_failure_outcomes [of ?P game_bin Mana "[]" FloatType "WriteAll [Health_42]"] f rd scan
  have 3: "LoadData Mana [] FloatType game_bin ?P = Some ((False, [], FloatType), ?P)"
    by blast
  from e 1 u 2 f rd scan 3 show ?thesis by blast
qed

section \<open>Malformed files\<close>

lemma ReadExistingData_after_tag:
  assumes rs: "list_all Record_ok rs"
  shows "ReadExistingData (MemoryReader (WriteAll rs @ [t])) []
       = Some (rs @ [\<lparr>DataType = t, Key = [], Data = []\<rparr>])"
proof -
  let ?E = "SetError (Reader_at (WriteAll rs @ [t]) [])"
  have "ReadExistingData (MemoryReader (WriteAll rs @ [t])) []
      = ReadExistingData (Reader_at (WriteAll rs) [t]) rs"
    using ReadExistingData_prefix [OF rs, of "[]" "[t]" "[]"] by (simp add: MemoryReader_at)
  also have "\<dots> = ReadExistingData ?E (rs @ [\<lparr>DataType = t, Key = [], Data = []\<rparr>])"
    by (subst ReadExistingData.simps) (simp add: AtEnd_at Load_FSerializedData_cut)
  also have "\<dots> = Some (rs @ [\<lparr>DataType = t, Key = [], Data = []\<rparr>])"
    by (subst ReadExistingData.simps)
      (simp add: AtEnd_def TotalSize_def SetError_def Reader_at_def)
  finally show ?thesis .
qed

lemma SaveData_False:
  "SaveData k d t p P = Some (False, P') \<Longrightarrow>
   Files P p \<noteq> None \<and> ReadFails P p \<and> P' = P \<or> WriteFails P p"
  by (auto simp: SaveData_def FileExists_def LoadFileToArray_def SaveArrayToFile_def Let_def
      split: if_splits option.splits)

lemma SaveData_loop_never_ends:
  "Files P p = Some bs \<Longrightarrow> \<not> ReadFails P p \<Longrightarrow> ReadExistingData (MemoryReader bs) [] = None \<Longrightarrow>
   SaveData k d t p P = None"
  by (simp add: SaveData_def FileExists_def LoadFileToArray_def)

lemma SaveData_decoded:
  "Files P p = Some bs \<Longrightarrow> \<not> ReadFails P p \<Longrightarrow> \<not> WriteFails P p \<Longrightarrow>
   ReadExistingData (MemoryReader bs) [] = Some rs \<Longrightarrow>
   SaveData k d t p P
     = Some (True, P\<lparr>Files := (Files P)(p \<mapsto> WriteAll (RemoveAll (\<lambda>Entry. FString_eq (Key Entry) k) rs
                                      @ [\<lparr>DataType = t, Key = k, Data = d\<rparr>])),
                     Written := Written P @ [(p, WriteAll (RemoveAll (\<lambda>Entry. FString_eq (Key Entry) k) rs
                                      @ [\<lparr>DataType = t, Key = k, Data = d\<rparr>]))]\<rparr>)"
  by (simp add: SaveData_def FileExists_def LoadFileToArray_def SaveArrayToFile_def Let_def)

text \<open>
  Claim C3 fails as stated. The file of the scenario followed by the first three bytes of
  another record (its type tag and half of the length prefix of its key) can be read, and
  \<open>SaveData\<close> on it does not return false: the loop that decodes it never ends. Followed by
  a type tag alone, the file is accepted: \<open>SaveData\<close> returns true and rewrites the file
  with a record of that tag, empty key and empty payload among the others.
\<close>

theorem SaveData_truncated_file:
  "SaveData Mana [5, 0, 0, 0] IntType game_bin
     (Platform_after (WriteAll [Health_42] @ [2, 7, 0]) []) = None
   \<and> Outcome game_bin
       (SaveData Mana [5, 0, 0, 0] IntType game_bin (Platform_after (WriteAll [Health_42] @ [2]) []))
     = Some (True, Some (WriteAll [Health_42, \<lparr>DataType = 2, Key = [], Data = []\<rparr>, Mana_5]))"
proof -
  have ok: "list_all Record_ok [Health_42]"
    by (simp add: Record_ok_Health_42)
  let ?P = "Platform_after (WriteAll [Health_42] @ [2, 7, 0]) []"
  have "ReadExistingData (MemoryReader (WriteAll [Health_42] @ [2, 7, 0])) [] = None"
    using ReadExistingData_cut [OF ok, of "[7, 0]" 2] by simp
  then have 1: "SaveData Mana [5, 0, 0, 0] IntType game_bin ?P = None"
    by (intro SaveData_loop_never_ends) (simp_all add: Platform_after_simps)
  let ?Q = "Platform_after (WriteAll [Health_42] @ [2]) []"
  have kept: "RemoveAll (\<lambda>Entry. FString_eq (Key Entry) Mana) [Health_42, \<lparr>DataType = 2, Key = [], Data = []\<rparr>]
      = [Health_42, \<lparr>DataType = 2, Key = [], Data = []\<rparr>]"
    using Health_not_Mana empty_not_Mana by (simp add: RemoveAll_def Health_42_def)
  have "ReadExistingData (MemoryReader (WriteAll [Health_42] @ [2])) []
      = Some [Health_42, \<lparr>DataType = 2, Key = [], Data = []\<rparr>]"
    using ReadExistingData_after_tag [OF ok, of 2] by simp
  then have 2: "SaveData Mana [5, 0, 0, 0] IntType game_bin ?Q
      = Some (True, ?Q\<lparr>Files := (Files ?Q)(game_bin \<mapsto>
                 WriteAll ([Health_42, \<lparr>DataType = 2, Key = [], Data = []\<rparr>] @ [Mana_5])),
               Written := Written ?Q @ [(game_bin,
                 WriteAll ([Health_42, \<lparr>DataType = 2, Key = [], Data = []\<rparr>] @ [Mana_5]))]\<rparr>)"
    using SaveData_decoded [of ?Q game_bin "WriteAll [Health_42] @ [2]"
        "[Health_42, \<lparr>DataType = 2, Key = [], Data = []\<rparr>]" Mana "[5, 0, 0, 0]" IntType]
    by (simp add: Platform_after_simps kept Mana_5_def)
  show ?thesis
    by (simp add: 1 2 Outcome_def)
qed

text \<open>
  Claim C3, amended. \<open>SaveData\<close> has no outcome for bytes that do not decode. It returns
  false only when the existing file cannot be read, and then it writes nothing, or when
  the write fails. On a readable file that holds well-formed records followed by a type
  tag and one to three more bytes, the call does not return, so it writes nothing.
  On a file that holds well-formed records followed by a type tag alone, it returns
  true and writes back the earlier records and a record of that tag with empty key and
  payload, less those of the given key, followed by the new record.
\<close>

theorem SaveData_no_decode_failure:
  "(SaveData k d t p P = Some (False, P') \<longrightarrow>
      Files P p \<noteq> None \<and> ReadFails P p \<and> P' = P \<or> WriteFails P p)
   \<and> (Files P p = Some (WriteAll rs @ tag # leftover) \<and> list_all Record_ok rs
        \<and> leftover \<noteq> [] \<and> length leftover < 4 \<and> \<not> ReadFails P p \<longrightarrow>
      SaveData k d t p P = None)
   \<and> (Files P p = Some (WriteAll rs @ [tag]) \<and> list_all Record_ok rs
        \<and> \<not> ReadFails P p \<and> \<not> WriteFails P p \<longrightarrow>
      (\<exists>P''. SaveData k d t p P = Some (True, P'')
         \<and> Files P'' p = Some (WriteAll (RemoveAll (\<lambda>Entry. FString_eq (Key Entry) k)
                                   (rs @ [\<lparr>DataType = tag, Key = [], Data = []\<rparr>])
                                 @ [\<lparr>DataType = t, Key = k, Data = d\<rparr>]))))"
proof (intro conjI impI)
  assume "SaveData k d t p P = Some (False, P')"
  then show "Files P p \<noteq> None \<and> ReadFails P p \<and> P' = P \<or> WriteFails P p"
    by (rule SaveData_False)
next
  assume a: "Files P p = Some (WriteAll rs @ tag # leftover) \<and> list_all Record_ok rs
        \<and> leftover \<noteq> [] \<and> length leftover < 4 \<and> \<not> ReadFails P p"
  then have "ReadExistingData (MemoryReader (WriteAll rs @ tag # leftover)) [] = None"
    by (intro ReadExistingData_cut) simp_all
  with a show "SaveData k d t p P = None"
    by (intro SaveData_loop_never_ends) simp_all
next
  assume a: "Files P p = Some (WriteAll rs @ [tag]) \<and> list_all Record_ok rs
        \<and> \<not> ReadFails P p \<and> \<not> WriteFails P p"
  then have "ReadExistingData (MemoryReader (WriteAll rs @ [tag])) []
      = Some (rs @ [\<lparr>DataType = tag, Key = [], Data = []\<rparr>])"
    by (intro ReadExistingData_after_tag) simp
  with a SaveData_decoded [of P p "WriteAll rs @ [tag]"
      "rs @ [\<lparr>DataType = tag, Key = [], Data = []\<rparr>]" k d t]
  show "\<exists>P''. SaveData k d t p P = Some (True, P'')
         \<and> Files P'' p = Some (WriteAll (RemoveAll (\<lambda>Entry. FString_eq (Key Entry) k)
                                   (rs @ [\<lparr>DataType = tag, Key = [], Data = []\<rparr>])
                                 @ [\<lparr>DataType = t, Key = k, Data = d\<rparr>]))"
    by simp
qed

theorem SaveData_no_decode_failure_witness:
  "SaveData Mana [5, 0, 0, 0] IntType game_bin (Platform_unreadable (WriteAll [Health_42]))
     = Some (False, Platform_unreadable (WriteAll [Health_42]))
   \<and> Files (Platform_unreadable (WriteAll [Health_42])) game_bin \<noteq> None
   \<and> ReadFails (Platform_unreadable (WriteAll [Health_42])) game_bin
   \<and> Files (Platform_after (WriteAll [Health_42] @ [2, 7, 0]) []) game_bin
       = Some (WriteAll [Health_42] @ 2 # [7, 0])
   \<and> list_all Record_ok [Health_42] \<and> [7, 0 :: uint8] \<noteq> [] \<and> length [7, 0 :: uint8] < 4
   \<and> \<not> ReadFails (Platform_after (WriteAll [Health_42] @ [2, 7, 0]) []) game_bin
   \<and> SaveData Mana [5, 0, 0, 0] IntType game_bin
       (Platform_after (WriteAll [Health_42] @ [2, 7, 0]) []) = None
   \<and> Files (Platform_after (WriteAll [Health_42] @ [2]) []) game_bin
       = Some (WriteAll [Health_42] @ [2])
   \<and> \<not> ReadFails (Platform_after (WriteAll [Health_42] @ [2]) []) game_bin
   \<and> \<not> WriteFails (Platform_after (WriteAll [Health_42] @ [2]) []) game_bin
   \<and> (\<exists>P''. SaveData Mana [5, 0, 0, 0] IntType game_bin
               (Platform_after (WriteAll [Health_42] @ [2]) []) = Some (True, P''))"
proof -
  let ?U = "Platform_unreadable (WriteAll [Health_42])"
  let ?P = "Platform_after (WriteAll [Health_42] @ [2, 7, 0]) []"
  let ?Q = "Platform_after (WriteAll [Health_42] @ [2]) []"
  have u: "Files ?U game_bin \<noteq> None" "ReadFails ?U game_bin"
    by (simp_all add: Platform_unreadable_def Platform_after_def Platform_empty_def)
  have su: "SaveData Mana [5, 0, 0, 0] IntType game_bin ?U = Some (False, ?U)"
    using u by (auto simp: SaveData_def FileExists_def LoadFileToArray_def)
  have ok: "list_all Record_ok [Health_42]"
    by (simp add: Record_ok_Health_42)
  have p: "Files ?P game_bin = Some (WriteAll [Health_42] @ 2 # [7, 0])"
      "\<not> ReadFails ?P game_bin"
    by (simp_all add: Platform_after_simps)
  have q: "Files ?Q game_bin = Some (WriteAll [Health_42] @ [2])"
      "\<not> ReadFails ?Q game_bin" "\<not> WriteFails ?Q game_bin"
    by (simp_all add: Platform_after_simps)
  have c: "[7, 0 :: uint8] \<noteq> []" "length [7, 0 :: uint8] < 4"
    by simp_all
  note t1 = SaveData_no_decode_failure [where k = Mana and d = "[5, 0, 0, 0]" and t = IntType
      and p = game_bin and P = ?U and P' = ?U]
  note t2 = SaveData_no_decode_failure [where k = Mana and d = "[5, 0, 0, 0]" and t = IntType
      and p = game_bin and P = ?P and rs = "[Health_42]" and tag = 2 and leftover = "[7, 0]"]
  note t3 = SaveData_no_decode_failure [where k = Mana and d = "[5, 0, 0, 0]" and t = IntType
      and p = game_bin and P = ?Q and rs = "[Health_42]" and tag = 2]
  from t2 p ok c have 2: "SaveData Mana [5, 0, 0, 0] IntType game_bin ?P = None"
    by blast
  from t3 q ok have 3: "\<exists>P''. SaveData Mana [5, 0, 0, 0] IntType game_bin ?Q = Some (True, P'')"
    by blast
  from t1 su u p ok c 2 q 3 show ?thesis by blast
qed

section \<open>Keys that an archive does not give back\<close>

lemma Read_Saved_42:
  "ReadExistingData (MemoryReader (WriteAll [Saved_42])) [] = Some [Read_42]"
  by code_simp

lemma Read_Saved_7:
  "ReadExistingData (MemoryReader (WriteAll [Read_42, Saved_7])) [] = Some [Read_42, Read_7]"
  by code_simp

lemma Find_Saved_42:
  "FindData Key_FFFF (MemoryReader (WriteAll [Saved_42])) = Some None"
  by code_simp

lemma Kept_Read_42:
  "RemoveAll (\<lambda>Entry. FString_eq (Key Entry) Key_FFFF) [Read_42] = [Read_42]"
  by code_simp

lemma SaveData_Key_FFFF_42:
  "SaveData Key_FFFF [42, 0, 0, 0] IntType game_bin Platform_empty
     = Some (True, Platform_after (WriteAll [Saved_42]) [(game_bin, WriteAll [Saved_42])])"
  unfolding Platform_after_def Platform_empty_def
  by (simp add: SaveData_absent Saved_42_def)

lemma SaveData_Key_FFFF_7:
  "SaveData Key_FFFF [7, 0, 0, 0] IntType game_bin (Platform_after (WriteAll [Saved_42]) w)
     = Some (True, Platform_after (WriteAll [Read_42, Saved_7])
                     (w @ [(game_bin, WriteAll [Read_42, Saved_7])]))"
  using SaveData_decoded [of "Platform_after (WriteAll [Saved_42]) w" game_bin
      "WriteAll [Saved_42]" "[Read_42]" Key_FFFF "[7, 0, 0, 0]" IntType]
  by (simp add: Platform_after_simps Read_Saved_42 Kept_Read_42 Saved_7_def)
    (simp add: Platform_after_def Platform_empty_def)

text \<open>
  Claim C2 fails as stated. The key of the two code units \<open>0x41\<close> and \<open>0xFFFF\<close> is saved
  with success on the empty platform, and \<open>LoadData\<close> of the same key from the same path
  then returns false with its outputs untouched: the archive writes the key in its
  two-byte form and gives it back cut at \<open>0xFFFF\<close>, so the stored record has another key.
\<close>

theorem SaveData_then_LoadData_cut_key:
  "SaveData Key_FFFF [42, 0, 0, 0] IntType game_bin Platform_empty
     = Some (True, Platform_after (WriteAll [Saved_42]) [(game_bin, WriteAll [Saved_42])])
   \<and> LoadData Key_FFFF [] FloatType game_bin
        (Platform_after (WriteAll [Saved_42]) [(game_bin, WriteAll [Saved_42])])
     = Some ((False, [], FloatType),
             Platform_after (WriteAll [Saved_42]) [(game_bin, WriteAll [Saved_42])])"
proof -
  let ?A = "Platform_after (WriteAll [Saved_42]) [(game_bin, WriteAll [Saved_42])]"
  have "LoadData Key_FFFF [] FloatType game_bin ?A = Some ((False, [], FloatType), ?A)"
    using LoadData_scanned [of ?A game_bin "WriteAll [Saved_42]" Key_FFFF "[]" FloatType]
    by (simp add: Platform_after_simps Find_Saved_42)
  with SaveData_Key_FFFF_42 show ?thesis by simp
qed

text \<open>
  Claim C1 fails as stated. Two successful calls of \<open>SaveData\<close> with the key of the code
  units \<open>0x41\<close> and \<open>0xFFFF\<close>, starting from no file, leave a file that decodes to two
  records. Both have the key of the one code unit \<open>0x41\<close>, so no record has the key that
  was saved, and one key is there twice.
\<close>

theorem SaveData_twice_cut_key:
  "SaveData Key_FFFF [42, 0, 0, 0] IntType game_bin Platform_empty
     = Some (True, Platform_after (WriteAll [Saved_42]) [(game_bin, WriteAll [Saved_42])])
   \<and> SaveData Key_FFFF [7, 0, 0, 0] IntType game_bin
        (Platform_after (WriteAll [Saved_42]) [(game_bin, WriteAll [Saved_42])])
     = Some (True, Platform_after (WriteAll [Read_42, Saved_7])
                     [(game_bin, WriteAll [Saved_42]), (game_bin, WriteAll [Read_42, Saved_7])])
   \<and> StoredRecords game_bin
        (Platform_after (WriteAll [Read_42, Saved_7])
           [(game_bin, WriteAll [Saved_42]), (game_bin, WriteAll [Read_42, Saved_7])])
     = Some [Read_42, Read_7]
   \<and> Key Read_42 = [0x41] \<and> Key Read_7 = [0x41] \<and> Key_FFFF \<noteq> [0x41]"
proof -
  have 2: "SaveData Key_FFFF [7, 0, 0, 0] IntType game_bin
        (Platform_after (WriteAll [Saved_42]) [(game_bin, WriteAll [Saved_42])])
     = Some (True, Platform_after (WriteAll [Read_42, Saved_7])
                     [(game_bin, WriteAll [Saved_42]), (game_bin, WriteAll [Read_42, Saved_7])])"
    using SaveData_Key_FFFF_7 [of "[(game_bin, WriteAll [Saved_42])]"] by simp
  have 3: "StoredRecords game_bin
        (Platform_after (WriteAll [Read_42, Saved_7])
           [(game_bin, WriteAll [Saved_42]), (game_bin, WriteAll [Read_42, Saved_7])])
     = Some [Read_42, Read_7]"
    by (simp add: StoredRecords_def Platform_after_simps Read_Saved_7)
  have 4: "Key Read_42 = [0x41]" "Key Read_7 = [0x41]" "Key_FFFF \<noteq> [0x41]"
    by (simp_all add: Read_42_def Read_7_def Key_FFFF_def)
  from SaveData_Key_FFFF_42 2 3 4 show ?thesis by simp
qed

end
